theory Spec2Isabelle
  imports Main "HOL-Library.Multiset"
begin

section \<open>Data model (jobs/models.py)\<close>

text \<open>
  The relational store of the marketplace. Every table is the list of its rows in
  insertion order; a primary key is a natural number handed out by a per-table
  sequence that is never reused. A nullable foreign key is an \<open>option\<close>.
  The \<open>choices\<close> of a status or role column are a datatype.
\<close>

datatype role = Client | Freelancer

datatype job_status = Open | InProgress | Completed

datatype app_status = Pending | Accepted | Rejected

record user =
  user_id :: nat
  username :: string
  email :: string
  password :: string
  first_name :: string
  last_name :: string

record profile =
  profile_user :: nat
  profile_role :: role
  profile_created_at :: nat

record job =
  job_id :: nat
  title :: string
  description :: string
  budget :: int
  owner :: "nat option"
  job_status :: job_status
  job_created_at :: nat

record application =
  app_id :: nat
  app_job :: nat
  applicant_user :: "nat option"
  applicant_name :: string
  proposal :: string
  app_status :: app_status
  app_created_at :: nat

record message =
  msg_id :: nat
  sender :: nat
  receiver :: nat
  msg_job :: nat
  content :: string
  msg_read :: bool
  timestamp :: nat

record db =
  users :: "user list"
  profiles :: "profile list"
  jobs :: "job list"
  applications :: "application list"
  messages :: "message list"
  user_seq :: nat
  job_seq :: nat
  application_seq :: nat
  message_seq :: nat

definition empty_db :: db where
  "empty_db = \<lparr>users = [], profiles = [], jobs = [], applications = [], messages = [],
     user_seq = 1, job_seq = 1, application_seq = 1, message_seq = 1\<rparr>"

section \<open>Requests and responses\<close>

datatype http_method = GET | POST | OtherMethod

text \<open>
  \<open>req_user\<close> is \<open>request.user\<close>: \<open>None\<close> is the anonymous user, \<open>Some u\<close> the
  authenticated user with primary key \<open>u\<close>. \<open>req_POST\<close> is the submitted form,
  \<open>req_now\<close> the clock value that \<open>auto_now_add\<close> stores.
\<close>

record request =
  req_user :: "nat option"
  req_method :: http_method
  req_POST :: "string \<rightharpoonup> string"
  req_now :: nat

record conversation_entry =
  conv_job :: nat
  conv_other_user :: nat
  last_message_time :: nat
  unread_count :: nat

datatype page_context =
    NoContext
  | JobsCtx "job list"
  | MyJobsCtx "(job \<times> nat) list"
  | ApplyCtx job
  | JobApplicationsCtx job "application list"
  | MyApplicationsCtx "application list"
  | ConversationCtx job user "message list"
  | ConversationsCtx "conversation_entry list"
  | SignupCtx "string option" role

datatype response =
    Redirect string "nat list"
  | HttpResponseForbidden string
  | Http404
  | HttpResponseNotAllowed
  | ServerError
  | Render string page_context

section \<open>Query helpers\<close>

definition get_user :: "db \<Rightarrow> nat \<Rightarrow> user option" where
  "get_user d i = find (\<lambda>u. user_id u = i) (users d)"

definition get_profile :: "db \<Rightarrow> nat \<Rightarrow> profile option" where
  "get_profile d u = find (\<lambda>p. profile_user p = u) (profiles d)"

definition get_job :: "db \<Rightarrow> nat \<Rightarrow> job option" where
  "get_job d i = find (\<lambda>j. job_id j = i) (jobs d)"

definition get_application :: "db \<Rightarrow> nat \<Rightarrow> application option" where
  "get_application d i = find (\<lambda>a. app_id a = i) (applications d)"

text \<open>\<open>obj.save()\<close> on a row that exists: the row with that primary key is overwritten.\<close>

definition save_job :: "db \<Rightarrow> job \<Rightarrow> db" where
  "save_job d j = d\<lparr>jobs := map (\<lambda>x. if job_id x = job_id j then j else x) (jobs d)\<rparr>"

definition save_application :: "db \<Rightarrow> application \<Rightarrow> db" where
  "save_application d a =
     d\<lparr>applications := map (\<lambda>x. if app_id x = app_id a then a else x) (applications d)\<rparr>"

text \<open>\<open>order_by('f')\<close> and \<open>order_by('-f')\<close>; Python's \<open>sorted(xs, key=f, reverse=True)\<close>,
  which keeps equal keys in their original order.\<close>

definition order_by :: "('a \<Rightarrow> nat) \<Rightarrow> 'a list \<Rightarrow> 'a list" where
  "order_by f xs = sort_key f xs"

definition order_by_desc :: "('a \<Rightarrow> nat) \<Rightarrow> 'a list \<Rightarrow> 'a list" where
  "order_by_desc f xs = rev (sort_key f xs)"

definition sorted_reverse :: "('a \<Rightarrow> nat) \<Rightarrow> 'a list \<Rightarrow> 'a list" where
  "sorted_reverse f xs = rev (sort_key f (rev xs))"

text \<open>\<open>request.POST.get(k)\<close> is \<open>None\<close> or a string; both \<open>None\<close> and the empty
  string are false in a condition.\<close>

definition truthy :: "string option \<Rightarrow> bool" where
  "truthy v = (case v of None \<Rightarrow> False | Some s \<Rightarrow> s \<noteq> [])"

definition str_value :: "string option \<Rightarrow> string" where
  "str_value v = (case v of None \<Rightarrow> [] | Some s \<Rightarrow> s)"

definition to_home :: response where
  "to_home = Redirect ''home'' []"

definition to_login :: response where
  "to_login = Redirect ''login'' []"

section \<open>Views (jobs/views.py)\<close>

definition home :: "db \<Rightarrow> request \<Rightarrow> response \<times> db" where
  "home d r = (Render ''home.html'' NoContext, d)"

definition logout_view :: "db \<Rightarrow> request \<Rightarrow> response \<times> db" where
  "logout_view d r = (to_home, d)"

definition choose_role :: "db \<Rightarrow> request \<Rightarrow> response \<times> db" where
  "choose_role d r =
     (if req_user r \<noteq> None then (to_home, d)
      else (Render ''registration/choose_role.html'' NoContext, d))"

definition available_jobs :: "db \<Rightarrow> request \<Rightarrow> response \<times> db" where
  "available_jobs d r =
     (case req_user r of
        None \<Rightarrow> (to_home, d)
      | Some u \<Rightarrow>
          (case get_profile d u of
             None \<Rightarrow> (to_home, d)
           | Some p \<Rightarrow>
               if profile_role p \<noteq> Freelancer then (to_home, d)
               else (Render ''jobs/available_jobs.html''
                       (JobsCtx (order_by_desc job_created_at
                          (filter (\<lambda>j. job_status j = Open) (jobs d)))), d)))"

text \<open>\<open>int(budget)\<close> is Python's built-in conversion; the model takes it as the
  parameter \<open>py_int\<close>, \<open>None\<close> standing for \<open>ValueError\<close>.\<close>

definition post_job :: "(string \<Rightarrow> int option) \<Rightarrow> db \<Rightarrow> request \<Rightarrow> response \<times> db" where
  "post_job py_int d r =
     (case req_user r of
        None \<Rightarrow> (to_login, d)
      | Some u \<Rightarrow>
          (case get_profile d u of
             None \<Rightarrow> (to_home, d)
           | Some p \<Rightarrow>
               if profile_role p \<noteq> Client then (to_home, d)
               else if req_method r = POST
                     \<and> truthy (req_POST r ''title'')
                     \<and> truthy (req_POST r ''description'')
                     \<and> truthy (req_POST r ''budget'')
               then
                 (let budget_value =
                        (case py_int (str_value (req_POST r ''budget'')) of
                           Some n \<Rightarrow> n | None \<Rightarrow> 0)
                  in (to_home,
                      d\<lparr>jobs := jobs d @
                           [\<lparr>job_id = job_seq d,
                             title = str_value (req_POST r ''title''),
                             description = str_value (req_POST r ''description''),
                             budget = budget_value,
                             owner = Some u,
                             job_status = Open,
                             job_created_at = req_now r\<rparr>],
                         job_seq := Suc (job_seq d)\<rparr>))
               else (Render ''jobs/post_job.html'' NoContext, d)))"

definition apply_job :: "db \<Rightarrow> request \<Rightarrow> nat \<Rightarrow> response \<times> db" where
  "apply_job d r jid =
     (case req_user r of
        None \<Rightarrow> (to_login, d)
      | Some u \<Rightarrow>
          (case get_profile d u of
             None \<Rightarrow> (to_home, d)
           | Some p \<Rightarrow>
               if profile_role p \<noteq> Freelancer then (to_home, d)
               else
                 (case get_job d jid of
                    None \<Rightarrow> (Http404, d)
                  | Some jb \<Rightarrow>
                      if req_method r = POST
                         \<and> truthy (req_POST r ''applicant_name'')
                         \<and> truthy (req_POST r ''proposal'')
                      then
                        (Redirect ''available_jobs'' [],
                         d\<lparr>applications := applications d @
                              [\<lparr>app_id = application_seq d,
                                app_job = job_id jb,
                                applicant_user = Some u,
                                applicant_name = str_value (req_POST r ''applicant_name''),
                                proposal = str_value (req_POST r ''proposal''),
                                app_status = Pending,
                                app_created_at = req_now r\<rparr>],
                            application_seq := Suc (application_seq d)\<rparr>)
                      else (Render ''jobs/apply_job.html'' (ApplyCtx jb), d))))"

definition my_jobs :: "db \<Rightarrow> request \<Rightarrow> response \<times> db" where
  "my_jobs d r =
     (case req_user r of
        None \<Rightarrow> (to_login, d)
      | Some u \<Rightarrow>
          (case get_profile d u of
             None \<Rightarrow> (to_home, d)
           | Some p \<Rightarrow>
               if profile_role p \<noteq> Client then (to_home, d)
               else (Render ''jobs/my_jobs.html''
                       (MyJobsCtx
                          (map (\<lambda>j. (j, length (filter
                                       (\<lambda>a. app_job a = job_id j \<and> app_status a \<noteq> Rejected)
                                       (applications d))))
                             (order_by_desc job_created_at
                                (filter (\<lambda>j. owner j = Some u \<and> job_status j \<noteq> Completed)
                                   (jobs d))))), d)))"

definition job_applications :: "db \<Rightarrow> request \<Rightarrow> nat \<Rightarrow> response \<times> db" where
  "job_applications d r jid =
     (case req_user r of
        None \<Rightarrow> (to_login, d)
      | Some u \<Rightarrow>
          (case get_job d jid of
             None \<Rightarrow> (Http404, d)
           | Some jb \<Rightarrow>
               if owner jb \<noteq> Some u then (to_home, d)
               else (Render ''jobs/job_applications.html''
                       (JobApplicationsCtx jb
                          (filter (\<lambda>a. app_job a = job_id jb \<and> app_status a \<noteq> Rejected)
                             (applications d))), d)))"

definition accept_application :: "db \<Rightarrow> request \<Rightarrow> nat \<Rightarrow> response \<times> db" where
  "accept_application d r aid =
     (case req_user r of
        None \<Rightarrow> (to_login, d)
      | Some u \<Rightarrow>
          if req_method r \<noteq> POST then (HttpResponseNotAllowed, d)
          else
            (case get_application d aid of
               None \<Rightarrow> (Http404, d)
             | Some ap \<Rightarrow>
                 (case get_job d (app_job ap) of
                    None \<Rightarrow> (ServerError, d)
                  | Some jb \<Rightarrow>
                      if owner jb \<noteq> Some u
                      then (HttpResponseForbidden ''Not authorized to accept this application'', d)
                      else
                        (let d1 = save_application d (ap\<lparr>app_status := Accepted\<rparr>);
                             d2 = save_job d1 (jb\<lparr>job_status := InProgress\<rparr>)
                         in (Redirect ''job_applications'' [job_id jb], d2)))))"

definition reject_application :: "db \<Rightarrow> request \<Rightarrow> nat \<Rightarrow> response \<times> db" where
  "reject_application d r aid =
     (case req_user r of
        None \<Rightarrow> (to_login, d)
      | Some u \<Rightarrow>
          if req_method r \<noteq> POST then (HttpResponseNotAllowed, d)
          else
            (case get_application d aid of
               None \<Rightarrow> (Http404, d)
             | Some ap \<Rightarrow>
                 (case get_job d (app_job ap) of
                    None \<Rightarrow> (ServerError, d)
                  | Some jb \<Rightarrow>
                      if owner jb \<noteq> Some u
                      then (HttpResponseForbidden ''Not authorized to reject this application'', d)
                      else
                        (let d1 = save_application d (ap\<lparr>app_status := Rejected\<rparr>)
                         in (Redirect ''job_applications'' [job_id jb], d1)))))"

definition my_applications :: "db \<Rightarrow> request \<Rightarrow> response \<times> db" where
  "my_applications d r =
     (case req_user r of
        None \<Rightarrow> (to_login, d)
      | Some u \<Rightarrow>
          (case get_profile d u of
             None \<Rightarrow> (to_home, d)
           | Some p \<Rightarrow>
               if profile_role p \<noteq> Freelancer then (to_home, d)
               else (Render ''jobs/my_applications.html''
                       (MyApplicationsCtx
                          (filter (\<lambda>a. applicant_user a = Some u \<and>
                                       (case get_job d (app_job a) of
                                          None \<Rightarrow> False
                                        | Some jb \<Rightarrow> job_status jb \<noteq> Completed))
                             (applications d))), d)))"

text \<open>The authorization test shared by the two messaging views: the job's owner, or
  a user with an accepted application for the job.\<close>

definition is_job_owner :: "nat \<Rightarrow> job \<Rightarrow> bool" where
  "is_job_owner u jb = (Some u = owner jb)"

definition is_accepted_applicant :: "db \<Rightarrow> nat \<Rightarrow> job \<Rightarrow> bool" where
  "is_accepted_applicant d u jb =
     (filter (\<lambda>a. app_job a = job_id jb \<and> applicant_user a = Some u \<and> app_status a = Accepted)
        (applications d) \<noteq> [])"

text \<open>The message query of \<open>conversation\<close> is lazy: it is run when the page is
  rendered, after the \<open>update(read=True)\<close>, so the rows shown carry the new flags.\<close>

definition thread_messages :: "db \<Rightarrow> nat \<Rightarrow> nat \<Rightarrow> nat \<Rightarrow> message list" where
  "thread_messages d jid u other =
     order_by timestamp
       (filter (\<lambda>m. (sender m = u \<and> receiver m = other) \<or> (sender m = other \<and> receiver m = u))
          (filter (\<lambda>m. msg_job m = jid) (messages d)))"

definition mark_read :: "db \<Rightarrow> nat \<Rightarrow> nat \<Rightarrow> nat \<Rightarrow> db" where
  "mark_read d jid u other =
     d\<lparr>messages :=
         map (\<lambda>m. if msg_job m = jid \<and> receiver m = u \<and> sender m = other \<and> \<not> msg_read m
                   then m\<lparr>msg_read := True\<rparr> else m)
           (messages d)\<rparr>"

definition conversation :: "db \<Rightarrow> request \<Rightarrow> nat \<Rightarrow> nat \<Rightarrow> response \<times> db" where
  "conversation d r jid uid =
     (case req_user r of
        None \<Rightarrow> (to_login, d)
      | Some u \<Rightarrow>
          (case get_job d jid of
             None \<Rightarrow> (Http404, d)
           | Some jb \<Rightarrow>
               (case get_user d uid of
                  None \<Rightarrow> (Http404, d)
                | Some other \<Rightarrow>
                    if \<not> (is_job_owner u jb \<or> is_accepted_applicant d u jb)
                    then (HttpResponseForbidden ''Not authorized to view this conversation'', d)
                    else
                      (let d1 = mark_read d (job_id jb) u (user_id other) in
                       if req_method r = POST then
                         (Redirect ''conversation'' [job_id jb, user_id other],
                          if truthy (req_POST r ''content'') then
                            d1\<lparr>messages := messages d1 @
                                 [\<lparr>msg_id = message_seq d1,
                                   sender = u,
                                   receiver = user_id other,
                                   msg_job = job_id jb,
                                   content = str_value (req_POST r ''content''),
                                   msg_read = False,
                                   timestamp = req_now r\<rparr>],
                               message_seq := Suc (message_seq d1)\<rparr>
                          else d1)
                       else
                         (Render ''jobs/conversation.html''
                            (ConversationCtx jb other
                               (thread_messages d1 (job_id jb) u (user_id other))), d1)))))"

definition clear_chat :: "db \<Rightarrow> request \<Rightarrow> nat \<Rightarrow> nat \<Rightarrow> response \<times> db" where
  "clear_chat d r jid uid =
     (case req_user r of
        None \<Rightarrow> (to_login, d)
      | Some u \<Rightarrow>
          if req_method r \<noteq> POST then (HttpResponseNotAllowed, d)
          else
            (case get_job d jid of
               None \<Rightarrow> (Http404, d)
             | Some jb \<Rightarrow>
                 (case get_user d uid of
                    None \<Rightarrow> (Http404, d)
                  | Some other \<Rightarrow>
                      if \<not> (is_job_owner u jb \<or> is_accepted_applicant d u jb)
                      then (HttpResponseForbidden ''Not authorized to clear this chat'', d)
                      else
                        (Redirect ''conversation'' [job_id jb, user_id other],
                         d\<lparr>messages :=
                             filter (\<lambda>m. \<not> (msg_job m = job_id jb
                                            \<and> sender m \<in> set [u, user_id other]
                                            \<and> receiver m \<in> set [u, user_id other]))
                               (messages d)\<rparr>))))"

definition complete_job :: "db \<Rightarrow> request \<Rightarrow> nat \<Rightarrow> response \<times> db" where
  "complete_job d r jid =
     (case req_user r of
        None \<Rightarrow> (to_login, d)
      | Some u \<Rightarrow>
          if req_method r \<noteq> POST then (HttpResponseNotAllowed, d)
          else
            (case get_job d jid of
               None \<Rightarrow> (Http404, d)
             | Some jb \<Rightarrow>
                 if owner jb \<noteq> Some u
                 then (HttpResponseForbidden ''Not authorized to complete this job'', d)
                 else
                   (let d1 = save_job d (jb\<lparr>job_status := Completed\<rparr>);
                        d2 = d1\<lparr>applications :=
                                 map (\<lambda>a. if app_job a = job_id jb \<and> app_status a \<noteq> Accepted
                                           then a\<lparr>app_status := Rejected\<rparr> else a)
                                   (applications d1)\<rparr>
                    in (Redirect ''my_jobs'' [], d2))))"

definition delete_application :: "db \<Rightarrow> request \<Rightarrow> nat \<Rightarrow> response \<times> db" where
  "delete_application d r aid =
     (case req_user r of
        None \<Rightarrow> (to_login, d)
      | Some u \<Rightarrow>
          if req_method r \<noteq> POST then (HttpResponseNotAllowed, d)
          else
            (case get_application d aid of
               None \<Rightarrow> (Http404, d)
             | Some ap \<Rightarrow>
                 if applicant_user ap \<noteq> Some u \<or> app_status ap \<noteq> Rejected
                 then (HttpResponseForbidden ''Not allowed to delete this application'', d)
                 else
                   (Redirect ''my_applications'' [],
                    d\<lparr>applications := filter (\<lambda>a. app_id a \<noteq> app_id ap) (applications d)\<rparr>)))"

definition get_unread_message_count :: "db \<Rightarrow> nat option \<Rightarrow> nat" where
  "get_unread_message_count d usr =
     (case usr of
        None \<Rightarrow> 0
      | Some u \<Rightarrow> length (filter (\<lambda>m. receiver m = u \<and> \<not> msg_read m) (messages d)))"

text \<open>The loop of \<open>my_conversations\<close>. The dictionary \<open>conversations\<close> is an association
  list in insertion order, as a Python dict iterates.\<close>

type_synonym conversations = "((nat \<times> nat) \<times> conversation_entry) list"

fun conversations_loop :: "db \<Rightarrow> nat \<Rightarrow> message list \<Rightarrow> conversations \<Rightarrow> conversations" where
  "conversations_loop d u [] convs = convs"
| "conversations_loop d u (msg # msgs) convs =
     (let other_user = (if receiver msg = u then sender msg else receiver msg);
          key = (other_user, msg_job msg)
      in if key \<notin> set (map fst convs) then
           conversations_loop d u msgs
             (convs @
              [(key,
                \<lparr>conv_job = msg_job msg,
                  conv_other_user = other_user,
                  last_message_time = timestamp msg,
                  unread_count =
                    length (filter (\<lambda>m. msg_job m = msg_job msg \<and> receiver m = u
                                        \<and> sender m = other_user \<and> \<not> msg_read m)
                              (messages d))\<rparr>)])
         else conversations_loop d u msgs convs)"

definition sorted_conversations :: "db \<Rightarrow> nat \<Rightarrow> conversation_entry list" where
  "sorted_conversations d u =
     sorted_reverse last_message_time
       (map snd
          (conversations_loop d u
             (order_by_desc timestamp
                (filter (\<lambda>m. sender m = u \<or> receiver m = u) (messages d)))
             []))"

definition my_conversations :: "db \<Rightarrow> request \<Rightarrow> response \<times> db" where
  "my_conversations d r =
     (case req_user r of
        None \<Rightarrow> (to_login, d)
      | Some u \<Rightarrow>
          (Render ''jobs/my_conversations.html'' (ConversationsCtx (sorted_conversations d u)), d))"

text \<open>\<open>signup_client\<close> and \<open>signup_freelancer\<close> differ in the role only.\<close>

definition signup_as :: "role \<Rightarrow> db \<Rightarrow> request \<Rightarrow> response \<times> db" where
  "signup_as rl d r =
     (if req_method r = OtherMethod then (HttpResponseNotAllowed, d)
      else if req_user r \<noteq> None then (to_home, d)
      else if req_method r = POST
              \<and> truthy (req_POST r ''email'') \<and> truthy (req_POST r ''password'')
              \<and> truthy (req_POST r ''first_name'') \<and> truthy (req_POST r ''last_name'')
      then
        (if filter (\<lambda>u. username u = str_value (req_POST r ''email'')) (users d) \<noteq> []
         then (Render ''registration/signup.html''
                 (SignupCtx (Some ''Email already registered.'') rl), d)
         else
           (to_home,
            d\<lparr>users := users d @
                 [\<lparr>user_id = user_seq d,
                   username = str_value (req_POST r ''email''),
                   email = str_value (req_POST r ''email''),
                   password = str_value (req_POST r ''password''),
                   first_name = str_value (req_POST r ''first_name''),
                   last_name = str_value (req_POST r ''last_name'')\<rparr>],
               profiles := profiles d @
                 [\<lparr>profile_user = user_seq d, profile_role = rl,
                   profile_created_at = req_now r\<rparr>],
               user_seq := Suc (user_seq d)\<rparr>))
      else (Render ''registration/signup.html'' (SignupCtx None rl), d))"

definition signup_client :: "db \<Rightarrow> request \<Rightarrow> response \<times> db" where
  "signup_client = signup_as Client"

definition signup_freelancer :: "db \<Rightarrow> request \<Rightarrow> response \<times> db" where
  "signup_freelancer = signup_as Freelancer"

section \<open>URL routing (marketplace/urls.py, jobs/urls.py)\<close>

datatype url =
    HomeUrl
  | ChooseRoleUrl
  | SignupClientUrl
  | SignupFreelancerUrl
  | LogoutUrl
  | AvailableJobsUrl
  | PostJobUrl
  | ApplyJobUrl nat
  | MyJobsUrl
  | JobApplicationsUrl nat
  | MyApplicationsUrl
  | AcceptApplicationUrl nat
  | RejectApplicationUrl nat
  | ConversationUrl nat nat
  | ClearChatUrl nat nat
  | MyConversationsUrl
  | CompleteJobUrl nat
  | DeleteApplicationUrl nat

fun dispatch :: "(string \<Rightarrow> int option) \<Rightarrow> db \<Rightarrow> request \<Rightarrow> url \<Rightarrow> response \<times> db" where
  "dispatch py_int d r HomeUrl = home d r"
| "dispatch py_int d r ChooseRoleUrl = choose_role d r"
| "dispatch py_int d r SignupClientUrl = signup_client d r"
| "dispatch py_int d r SignupFreelancerUrl = signup_freelancer d r"
| "dispatch py_int d r LogoutUrl = logout_view d r"
| "dispatch py_int d r AvailableJobsUrl = available_jobs d r"
| "dispatch py_int d r PostJobUrl = post_job py_int d r"
| "dispatch py_int d r (ApplyJobUrl jid) = apply_job d r jid"
| "dispatch py_int d r MyJobsUrl = my_jobs d r"
| "dispatch py_int d r (JobApplicationsUrl jid) = job_applications d r jid"
| "dispatch py_int d r MyApplicationsUrl = my_applications d r"
| "dispatch py_int d r (AcceptApplicationUrl aid) = accept_application d r aid"
| "dispatch py_int d r (RejectApplicationUrl aid) = reject_application d r aid"
| "dispatch py_int d r (ConversationUrl jid uid) = conversation d r jid uid"
| "dispatch py_int d r (ClearChatUrl jid uid) = clear_chat d r jid uid"
| "dispatch py_int d r MyConversationsUrl = my_conversations d r"
| "dispatch py_int d r (CompleteJobUrl jid) = complete_job d r jid"
| "dispatch py_int d r (DeleteApplicationUrl aid) = delete_application d r aid"

text \<open>A run of the server: the requests are handled one after the other.\<close>

fun run :: "(string \<Rightarrow> int option) \<Rightarrow> db \<Rightarrow> (request \<times> url) list \<Rightarrow> db" where
  "run py_int d [] = d"
| "run py_int d ((r, u) # rest) = run py_int (snd (dispatch py_int d r u)) rest"

section \<open>A concrete scenario\<close>

text \<open>A client (user 1) and two freelancers (users 2 and 3) sign up; the client posts
  job 1, both freelancers apply, the client accepts the first application, and three
  messages are sent, the last one by user 2 to user 2. \<open>demo_db\<close> is the store after
  these requests.\<close>

definition form :: "(string \<times> string) list \<Rightarrow> string \<rightharpoonup> string" where
  "form kvs = map_of kvs"

definition anon_post :: "(string \<times> string) list \<Rightarrow> nat \<Rightarrow> request" where
  "anon_post kvs t = \<lparr>req_user = None, req_method = POST, req_POST = form kvs, req_now = t\<rparr>"

definition user_post :: "nat \<Rightarrow> (string \<times> string) list \<Rightarrow> nat \<Rightarrow> request" where
  "user_post u kvs t = \<lparr>req_user = Some u, req_method = POST, req_POST = form kvs, req_now = t\<rparr>"

definition user_get :: "nat \<Rightarrow> nat \<Rightarrow> request" where
  "user_get u t = \<lparr>req_user = Some u, req_method = GET, req_POST = Map.empty, req_now = t\<rparr>"

definition signup_form :: "string \<Rightarrow> (string \<times> string) list" where
  "signup_form e = [(''email'', e), (''password'', ''pw''), (''first_name'', ''F''), (''last_name'', ''L'')]"

text \<open>A conversion that rejects every string; the scenario's budget is \<open>''abc''\<close>.\<close>

definition never_int :: "string \<Rightarrow> int option" where
  "never_int s = None"

definition demo_requests :: "(request \<times> url) list" where
  "demo_requests =
    [(anon_post (signup_form ''c1'') 1, SignupClientUrl),
     (anon_post (signup_form ''f1'') 2, SignupFreelancerUrl),
     (anon_post (signup_form ''f2'') 3, SignupFreelancerUrl),
     (user_post 1 [(''title'', ''A''), (''description'', ''D''), (''budget'', ''abc'')] 4, PostJobUrl),
     (user_post 2 [(''applicant_name'', ''F1''), (''proposal'', ''P'')] 5, ApplyJobUrl 1),
     (user_post 3 [(''applicant_name'', ''F2''), (''proposal'', ''Q'')] 6, ApplyJobUrl 1),
     (user_post 1 [] 7, AcceptApplicationUrl 1),
     (user_post 2 [(''content'', ''hi'')] 8, ConversationUrl 1 1),
     (user_post 1 [(''content'', ''hello'')] 9, ConversationUrl 1 2),
     (user_post 2 [(''content'', ''note'')] 10, ConversationUrl 1 2)]"

definition demo_user :: "nat \<Rightarrow> string \<Rightarrow> user" where
  "demo_user i e = \<lparr>user_id = i, username = e, email = e, password = ''pw'',
     first_name = ''F'', last_name = ''L''\<rparr>"

definition demo_job :: job where
  "demo_job = \<lparr>job_id = 1, title = ''A'', description = ''D'', budget = 0, owner = Some 1,
     job_status = InProgress, job_created_at = 4\<rparr>"

definition demo_app1 :: application where
  "demo_app1 = \<lparr>app_id = 1, app_job = 1, applicant_user = Some 2, applicant_name = ''F1'',
     proposal = ''P'', app_status = Accepted, app_created_at = 5\<rparr>"

definition demo_app2 :: application where
  "demo_app2 = \<lparr>app_id = 2, app_job = 1, applicant_user = Some 3, applicant_name = ''F2'',
     proposal = ''Q'', app_status = Pending, app_created_at = 6\<rparr>"

definition demo_msg1 :: message where
  "demo_msg1 = \<lparr>msg_id = 1, sender = 2, receiver = 1, msg_job = 1, content = ''hi'',
     msg_read = True, timestamp = 8\<rparr>"

definition demo_msg2 :: message where
  "demo_msg2 = \<lparr>msg_id = 2, sender = 1, receiver = 2, msg_job = 1, content = ''hello'',
     msg_read = False, timestamp = 9\<rparr>"

definition demo_msg3 :: message where
  "demo_msg3 = \<lparr>msg_id = 3, sender = 2, receiver = 2, msg_job = 1, content = ''note'',
     msg_read = False, timestamp = 10\<rparr>"

definition demo_db :: db where
  "demo_db =
    \<lparr>users = [demo_user 1 ''c1'', demo_user 2 ''f1'', demo_user 3 ''f2''],
     profiles =
       [\<lparr>profile_user = 1, profile_role = Client, profile_created_at = 1\<rparr>,
        \<lparr>profile_user = 2, profile_role = Freelancer, profile_created_at = 2\<rparr>,
        \<lparr>profile_user = 3, profile_role = Freelancer, profile_created_at = 3\<rparr>],
     jobs = [demo_job],
     applications = [demo_app1, demo_app2],
     messages = [demo_msg1, demo_msg2, demo_msg3],
     user_seq = 4, job_seq = 2, application_seq = 3, message_seq = 4\<rparr>"

text \<open>The store after the client has also completed job 1.\<close>

definition demo_db_completed :: db where
  "demo_db_completed =
     demo_db\<lparr>jobs := [demo_job\<lparr>job_status := Completed\<rparr>],
             applications := [demo_app1, demo_app2\<lparr>app_status := Rejected\<rparr>]\<rparr>"

text \<open>The store before the last request of the scenario: the two messages between
  users 1 and 2 only.\<close>

definition demo_db_before_note :: db where
  "demo_db_before_note = demo_db\<lparr>messages := [demo_msg1, demo_msg2], message_seq := 3\<rparr>"

section \<open>Predicates of the specification\<close>

text \<open>The authorization predicate in the specification's words: the user owns the job,
  or some application of the user for the job is accepted.\<close>

definition authorized :: "db \<Rightarrow> nat \<Rightarrow> job \<Rightarrow> bool" where
  "authorized d u jb \<longleftrightarrow>
     owner jb = Some u \<or>
     (\<exists>a \<in> set (applications d).
        app_job a = job_id jb \<and> applicant_user a = Some u \<and> app_status a = Accepted)"

text \<open>A message of job \<open>jid\<close> exchanged between \<open>a\<close> and \<open>b\<close>, in either direction.\<close>

definition in_thread :: "nat \<Rightarrow> nat \<Rightarrow> nat \<Rightarrow> message \<Rightarrow> bool" where
  "in_thread jid a b m \<longleftrightarrow>
     msg_job m = jid \<and> (sender m = a \<and> receiver m = b \<or> sender m = b \<and> receiver m = a)"

text \<open>Names for the parts of the loop of \<open>my_conversations\<close>: the other user of a
  message as seen by \<open>u\<close>, the dictionary key, the dictionary value stored for a
  message, and the message list the loop runs over.\<close>

definition counterpart :: "nat \<Rightarrow> message \<Rightarrow> nat" where
  "counterpart u m = (if receiver m = u then sender m else receiver m)"

definition conv_key :: "nat \<Rightarrow> message \<Rightarrow> nat \<times> nat" where
  "conv_key u m = (counterpart u m, msg_job m)"

definition new_entry :: "db \<Rightarrow> nat \<Rightarrow> message \<Rightarrow> conversation_entry" where
  "new_entry d u m =
     \<lparr>conv_job = msg_job m,
       conv_other_user = counterpart u m,
       last_message_time = timestamp m,
       unread_count =
         length (filter (\<lambda>x. msg_job x = msg_job m \<and> receiver x = u
                             \<and> sender x = counterpart u m \<and> \<not> msg_read x)
                   (messages d))\<rparr>"

definition involved_messages :: "db \<Rightarrow> nat \<Rightarrow> message list" where
  "involved_messages d u =
     order_by_desc timestamp (filter (\<lambda>m. sender m = u \<or> receiver m = u) (messages d))"

text \<open>The request is a POST by the authenticated owner of job \<open>jid\<close>; the request is a
  POST by the authenticated applicant of the application.\<close>

definition owner_posts :: "db \<Rightarrow> request \<Rightarrow> nat \<Rightarrow> bool" where
  "owner_posts d r jid \<longleftrightarrow>
     req_method r = POST \<and>
     (\<exists>usr jb. req_user r = Some usr \<and> get_job d jid = Some jb \<and> owner jb = Some usr)"

definition applicant_posts :: "request \<Rightarrow> application \<Rightarrow> bool" where
  "applicant_posts r ap \<longleftrightarrow>
     req_method r = POST \<and> (\<exists>usr. req_user r = Some usr \<and> applicant_user ap = Some usr)"

section \<open>Basic lemmas\<close>

lemma demo_db_reachable: "run never_int empty_db demo_requests = demo_db"
  by code_simp

lemma demo_get_job [simp]: "get_job demo_db 1 = Some demo_job"
  by (simp add: get_job_def demo_db_def demo_job_def)

lemma demo_get_application [simp]:
  "get_application demo_db 1 = Some demo_app1" "get_application demo_db 2 = Some demo_app2"
  by (simp_all add: get_application_def demo_db_def demo_app1_def demo_app2_def)

lemma demo_get_user [simp]:
  "get_user demo_db 1 = Some (demo_user 1 ''c1'')"
  "get_user demo_db 2 = Some (demo_user 2 ''f1'')"
  "get_user demo_db 3 = Some (demo_user 3 ''f2'')"
  by (simp_all add: get_user_def demo_db_def demo_user_def)

lemma demo_fields [simp]:
  "app_job demo_app1 = 1" "app_job demo_app2 = 1" "owner demo_job = Some 1" "job_id demo_job = 1"
  "req_user (user_post u kvs t) = Some u" "req_method (user_post u kvs t) = POST"
  "req_user (user_get u t) = Some u" "req_method (user_get u t) = GET"
  by (simp_all add: demo_app1_def demo_app2_def demo_job_def user_post_def user_get_def)

lemma find_key: "find (\<lambda>x. f x = i) xs = Some a \<Longrightarrow> f a = i"
  by (induction xs) (auto split: if_splits)

lemma find_map_overwrite:
  "f v = i \<Longrightarrow> find (\<lambda>x. f x = i) (map (\<lambda>x. if f x = i then v else x) xs)
     = map_option (\<lambda>_. v) (find (\<lambda>x. f x = i) xs)"
  by (induction xs) auto

lemma find_map_other:
  "f v = i \<Longrightarrow> j \<noteq> i \<Longrightarrow> find (\<lambda>x. f x = j) (map (\<lambda>x. if f x = i then v else x) xs)
     = find (\<lambda>x. f x = j) xs"
  by (induction xs) auto

lemma get_job_id: "get_job d i = Some jb \<Longrightarrow> job_id jb = i"
  unfolding get_job_def by (rule find_key)

lemma get_application_id: "get_application d i = Some ap \<Longrightarrow> app_id ap = i"
  unfolding get_application_def by (rule find_key)

lemma get_application_save_application:
  "app_id a = i \<Longrightarrow>
   get_application (save_application d a) i = map_option (\<lambda>_. a) (get_application d i)"
  unfolding get_application_def save_application_def by (simp add: find_map_overwrite)

lemma get_job_save_job:
  "job_id j = i \<Longrightarrow> get_job (save_job d j) i = map_option (\<lambda>_. j) (get_job d i)"
  unfolding get_job_def save_job_def by (simp add: find_map_overwrite)

lemma get_job_save_application [simp]: "get_job (save_application d a) i = get_job d i"
  unfolding get_job_def save_application_def by simp

lemma get_application_save_job [simp]: "get_application (save_job d j) i = get_application d i"
  unfolding get_application_def save_job_def by simp

lemma demo_db_completed_reachable:
  "run py_int demo_db [(user_post 1 [] 11, CompleteJobUrl 1)] = demo_db_completed"
  by (simp add: complete_job_def Let_def save_job_def del: One_nat_def)
     (simp add: demo_db_def demo_db_completed_def demo_job_def demo_app1_def demo_app2_def)

lemma demo_completed_lookups [simp]:
  "get_job demo_db_completed 1 = Some (demo_job\<lparr>job_status := Completed\<rparr>)"
  "get_application demo_db_completed 1 = Some demo_app1"
  "get_application demo_db_completed 2 = Some (demo_app2\<lparr>app_status := Rejected\<rparr>)"
  "get_profile demo_db_completed 3 =
     Some \<lparr>profile_user = 3, profile_role = Freelancer, profile_created_at = 3\<rparr>"
  by (simp_all add: demo_db_completed_def get_job_def get_application_def get_profile_def
        demo_db_def demo_job_def demo_app1_def demo_app2_def)

lemma find_filter_key:
  "find (\<lambda>x. f x = i) (filter (\<lambda>x. f x \<noteq> k) xs)
     = (if i = k then None else find (\<lambda>x. f x = i) xs)"
  by (induction xs) auto

lemma is_accepted_applicant_iff:
  "is_accepted_applicant d u jb \<longleftrightarrow>
     (\<exists>a \<in> set (applications d).
        app_job a = job_id jb \<and> applicant_user a = Some u \<and> app_status a = Accepted)"
  unfolding is_accepted_applicant_def by (auto simp: filter_empty_conv)

lemma authorized_iff:
  "authorized d u jb \<longleftrightarrow> is_job_owner u jb \<or> is_accepted_applicant d u jb"
  by (auto simp: authorized_def is_job_owner_def is_accepted_applicant_iff)

lemma demo_statuses [simp]:
  "job_status demo_job = InProgress" "app_status demo_app1 = Accepted"
  "app_status demo_app2 = Pending" "app_id demo_app1 = 1" "app_id demo_app2 = 2"
  by (simp_all add: demo_job_def demo_app1_def demo_app2_def)

section \<open>How each view changes the job table\<close>

lemma find_append_Some: "find P xs = Some x \<Longrightarrow> find P (xs @ ys) = Some x"
  by (induction xs) (auto split: if_splits)

lemma find_map_same_key:
  "(\<And>x. f (g x) = f x) \<Longrightarrow> find (\<lambda>x. f x = i) (map g xs) = map_option g (find (\<lambda>x. f x = i) xs)"
  by (induction xs) auto

lemma run_append: "run py d (xs @ ys) = run py (run py d xs) ys"
  by (induction xs arbitrary: d) auto

lemma get_job_applications_update [simp]: "get_job (d\<lparr>applications := x\<rparr>) j = get_job d j"
  by (simp add: get_job_def)

lemma jobs_unchanged:
  "jobs (snd (home d r)) = jobs d"
  "jobs (snd (choose_role d r)) = jobs d"
  "jobs (snd (signup_client d r)) = jobs d"
  "jobs (snd (signup_freelancer d r)) = jobs d"
  "jobs (snd (logout_view d r)) = jobs d"
  "jobs (snd (available_jobs d r)) = jobs d"
  "jobs (snd (apply_job d r jid)) = jobs d"
  "jobs (snd (my_jobs d r)) = jobs d"
  "jobs (snd (job_applications d r jid)) = jobs d"
  "jobs (snd (my_applications d r)) = jobs d"
  "jobs (snd (reject_application d r aid)) = jobs d"
  "jobs (snd (conversation d r jid uid)) = jobs d"
  "jobs (snd (clear_chat d r jid uid)) = jobs d"
  "jobs (snd (my_conversations d r)) = jobs d"
  "jobs (snd (delete_application d r aid)) = jobs d"
  by (simp_all add: home_def choose_role_def signup_client_def signup_freelancer_def signup_as_def
        logout_view_def available_jobs_def apply_job_def my_jobs_def job_applications_def
        my_applications_def reject_application_def conversation_def clear_chat_def
        my_conversations_def delete_application_def save_application_def mark_read_def Let_def
      split: option.splits)

lemma post_job_get_job:
  "get_job d j = Some jb \<Longrightarrow> get_job (snd (post_job py d r)) j = Some jb"
  by (auto simp: post_job_def get_job_def Let_def find_append_Some split: option.splits)

lemma accept_application_get_job:
  assumes "get_job d j = Some jb"
  shows "get_job (snd (accept_application d r aid)) j = Some jb
       \<or> get_job (snd (accept_application d r aid)) j = Some (jb\<lparr>job_status := InProgress\<rparr>)"
proof -
  have "get_job (save_job d' (x\<lparr>job_status := InProgress\<rparr>)) j = Some jb
      \<or> get_job (save_job d' (x\<lparr>job_status := InProgress\<rparr>)) j = Some (jb\<lparr>job_status := InProgress\<rparr>)"
    if "get_job d' (job_id x) = Some x" "get_job d' j = Some jb" for d' x
  proof (cases "j = job_id x")
    case True
    then show ?thesis using that by (simp add: get_job_save_job)
  next
    case False
    then show ?thesis using that by (simp add: get_job_def save_job_def find_map_other)
  qed
  note * = this
  show ?thesis
    using assms
    apply (simp add: accept_application_def Let_def split: option.splits)
    apply (intro allI impI conjI)
    subgoal for u ap x
      using * [of "save_application d (ap\<lparr>app_status := Accepted\<rparr>)" x]
      by (simp add: get_job_id)
    done
qed

lemma complete_job_get_job:
  assumes "get_job d j = Some jb"
  shows "get_job (snd (complete_job d r jid)) j = Some jb
       \<or> jid = j \<and> get_job (snd (complete_job d r jid)) j = Some (jb\<lparr>job_status := Completed\<rparr>)"
proof (cases "jid = j")
  case True
  have "job_id jb = j" using assms by (rule get_job_id)
  then have "get_job (save_job d (jb\<lparr>job_status := Completed\<rparr>)) j
      = Some (jb\<lparr>job_status := Completed\<rparr>)"
    using assms by (simp add: get_job_save_job)
  then show ?thesis using assms True
    by (simp add: complete_job_def Let_def split: option.splits)
next
  case False
  have "get_job (save_job d (x\<lparr>job_status := Completed\<rparr>)) j = Some jb" if "get_job d jid = Some x" for x
    using that False assms get_job_id[OF that]
    by (simp add: get_job_def save_job_def find_map_other)
  then show ?thesis using assms False
    by (auto simp: complete_job_def Let_def get_job_def split: option.splits)
qed

lemma dispatch_job_status:
  assumes "get_job d j = Some jb"
  shows "\<exists>jb'. get_job (snd (dispatch py d r u)) j = Some jb'
           \<and> (job_status jb' = job_status jb
              \<or> job_status jb' = InProgress \<and> (\<exists>a. u = AcceptApplicationUrl a)
              \<or> job_status jb' = Completed \<and> u = CompleteJobUrl j)"
proof (cases u)
  case PostJobUrl
  then show ?thesis using post_job_get_job[OF assms] by simp
next
  case (AcceptApplicationUrl a)
  then show ?thesis using accept_application_get_job[OF assms, of r a] by auto
next
  case (CompleteJobUrl jid)
  then show ?thesis using complete_job_get_job[OF assms, of r jid] by auto
qed (use assms in \<open>simp_all add: get_job_def jobs_unchanged\<close>)

lemma run_job_not_reopened:
  "get_job d j = Some jb \<Longrightarrow>
   \<exists>jb'. get_job (run py d rs) j = Some jb' \<and> (job_status jb \<noteq> Open \<longrightarrow> job_status jb' \<noteq> Open)"
proof (induction rs arbitrary: d jb)
  case Nil
  then show ?case by simp
next
  case (Cons x rs)
  obtain r u where x: "x = (r, u)" by (cases x)
  obtain jb1 where 1: "get_job (snd (dispatch py d r u)) j = Some jb1"
    and 2: "job_status jb \<noteq> Open \<longrightarrow> job_status jb1 \<noteq> Open"
    using dispatch_job_status[OF Cons.prems, of py r u] by auto
  from Cons.IH[OF 1] obtain jb' where "get_job (run py (snd (dispatch py d r u)) rs) j = Some jb'"
    "job_status jb1 \<noteq> Open \<longrightarrow> job_status jb' \<noteq> Open" by blast
  with 2 x show ?case by auto
qed

section \<open>How each view changes the application table\<close>

lemma get_application_jobs_update [simp]: "get_application (d\<lparr>jobs := x\<rparr>) i = get_application d i"
  by (simp add: get_application_def)

lemma applications_unchanged:
  "applications (snd (home d r)) = applications d"
  "applications (snd (choose_role d r)) = applications d"
  "applications (snd (signup_client d r)) = applications d"
  "applications (snd (signup_freelancer d r)) = applications d"
  "applications (snd (logout_view d r)) = applications d"
  "applications (snd (available_jobs d r)) = applications d"
  "applications (snd (post_job py d r)) = applications d"
  "applications (snd (my_jobs d r)) = applications d"
  "applications (snd (job_applications d r jid)) = applications d"
  "applications (snd (my_applications d r)) = applications d"
  "applications (snd (conversation d r jid uid)) = applications d"
  "applications (snd (clear_chat d r jid uid)) = applications d"
  "applications (snd (my_conversations d r)) = applications d"
  by (simp_all add: home_def choose_role_def signup_client_def signup_freelancer_def signup_as_def
        logout_view_def available_jobs_def post_job_def my_jobs_def job_applications_def
        my_applications_def conversation_def clear_chat_def
        my_conversations_def mark_read_def Let_def
      split: option.splits)

lemma apply_job_get_application:
  "get_application d i = Some ap \<Longrightarrow> get_application (snd (apply_job d r jid)) i = Some ap"
  by (auto simp: apply_job_def get_application_def find_append_Some split: option.splits)

lemma save_application_other:
  "get_application d i = Some ap \<Longrightarrow> i \<noteq> app_id x \<Longrightarrow>
   get_application (save_application d x) i = Some ap"
  by (simp add: get_application_def save_application_def find_map_other)

lemma accept_application_get_application:
  assumes "get_application d i = Some ap"
  shows "get_application (snd (accept_application d r aid)) i = Some ap
       \<or> aid = i \<and> get_application (snd (accept_application d r aid)) i
                      = Some (ap\<lparr>app_status := Accepted\<rparr>)"
proof (cases "aid = i")
  case True
  then show ?thesis
    using assms get_application_id[OF assms]
    by (simp add: accept_application_def Let_def get_application_save_application
          split: option.splits)
next
  case False
  have "get_application (save_application d (x\<lparr>app_status := Accepted\<rparr>)) i = Some ap"
    if "get_application d aid = Some x" for x
    using assms False get_application_id[OF that] by (simp add: save_application_other)
  then show ?thesis
    using assms False
    by (simp add: accept_application_def Let_def split: option.splits)
qed

lemma reject_application_get_application:
  assumes "get_application d i = Some ap"
  shows "get_application (snd (reject_application d r aid)) i = Some ap
       \<or> aid = i \<and> get_application (snd (reject_application d r aid)) i
                      = Some (ap\<lparr>app_status := Rejected\<rparr>)"
proof (cases "aid = i")
  case True
  then show ?thesis
    using assms get_application_id[OF assms]
    by (simp add: reject_application_def Let_def get_application_save_application
          split: option.splits)
next
  case False
  have "get_application (save_application d (x\<lparr>app_status := Rejected\<rparr>)) i = Some ap"
    if "get_application d aid = Some x" for x
    using assms False get_application_id[OF that] by (simp add: save_application_other)
  then show ?thesis
    using assms False
    by (simp add: reject_application_def Let_def split: option.splits)
qed

lemma complete_job_get_application:
  assumes "get_application d i = Some ap"
  shows "get_application (snd (complete_job d r jid)) i = Some ap
       \<or> jid = app_job ap \<and> app_status ap \<noteq> Accepted
           \<and> get_application (snd (complete_job d r jid)) i = Some (ap\<lparr>app_status := Rejected\<rparr>)"
proof -
  have "get_application
          (d'\<lparr>applications :=
               map (\<lambda>a. if app_job a = k \<and> app_status a \<noteq> Accepted
                         then a\<lparr>app_status := Rejected\<rparr> else a) (applications d')\<rparr>) i
        = Some (if app_job ap = k \<and> app_status ap \<noteq> Accepted
                then ap\<lparr>app_status := Rejected\<rparr> else ap)"
    if "get_application d' i = Some ap" for d' k
    using that
    by (simp add: get_application_def
          find_map_same_key [where f = app_id and g = "\<lambda>a. if app_job a = k \<and> app_status a \<noteq> Accepted
                         then a\<lparr>app_status := Rejected\<rparr> else a"])
  note * = this
  show ?thesis
    using assms
    by (auto simp: complete_job_def Let_def * dest: get_job_id split: option.splits)
qed

lemma delete_application_get_application:
  assumes "get_application d i = Some ap"
  shows "get_application (snd (delete_application d r aid)) i = Some ap
       \<or> aid = i \<and> app_status ap = Rejected
           \<and> get_application (snd (delete_application d r aid)) i = None"
proof (cases "aid = i")
  case True
  have "get_application (d\<lparr>applications := filter (\<lambda>a. app_id a \<noteq> i) (applications d)\<rparr>) i = None"
    by (simp add: get_application_def find_filter_key)
  then show ?thesis
    using True assms get_application_id[OF assms]
    by (auto simp: delete_application_def split: option.splits)
next
  case False
  have "get_application (d\<lparr>applications := filter (\<lambda>a. app_id a \<noteq> app_id x) (applications d)\<rparr>) i
          = Some ap"
    if "get_application d aid = Some x" for x
    using assms False get_application_id[OF that]
    by (simp add: get_application_def find_filter_key)
  then show ?thesis
    using assms False
    by (simp add: delete_application_def split: option.splits)
qed

section \<open>Threads and read flags\<close>

lemma mark_read_messages_nth:
  "k < length (messages d) \<Longrightarrow>
   messages (mark_read d jid u other) ! k =
     (if msg_job (messages d ! k) = jid \<and> receiver (messages d ! k) = u
         \<and> sender (messages d ! k) = other \<and> \<not> msg_read (messages d ! k)
      then (messages d ! k)\<lparr>msg_read := True\<rparr> else messages d ! k)"
  by (simp add: mark_read_def)

lemma mark_read_length [simp]: "length (messages (mark_read d jid u other)) = length (messages d)"
  by (simp add: mark_read_def)

lemma thread_messages_mset:
  "mset (thread_messages d jid u other) = filter_mset (in_thread jid u other) (mset (messages d))"
  unfolding thread_messages_def order_by_def in_thread_def
  by (simp add: conj_commute cong: conj_cong)

lemma thread_messages_sorted: "sorted (map timestamp (thread_messages d jid u other))"
  unfolding thread_messages_def order_by_def by (rule sorted_sort_key)

lemma thread_messages_mark_read_ids:
  "mset (map msg_id (thread_messages (mark_read d jid' u' other') jid u other))
     = mset (map msg_id (filter (in_thread jid u other) (messages d)))"
proof -
  let ?g = "\<lambda>m. if msg_job m = jid' \<and> receiver m = u' \<and> sender m = other' \<and> \<not> msg_read m
                 then m\<lparr>msg_read := True\<rparr> else m"
  have g: "in_thread jid u other (?g m) = in_thread jid u other m" "msg_id (?g m) = msg_id m" for m
    by (simp_all add: in_thread_def)
  have "mset (map msg_id (thread_messages (mark_read d jid' u' other') jid u other))
      = image_mset msg_id (filter_mset (in_thread jid u other) (image_mset ?g (mset (messages d))))"
    by (simp add: thread_messages_mset mark_read_def)
  also have "\<dots> = image_mset msg_id (filter_mset (in_thread jid u other) (mset (messages d)))"
    by (simp add: filter_mset_image_mset multiset.map_comp comp_def g)
  finally show ?thesis by simp
qed

lemma demo_messages [simp]: "messages demo_db = [demo_msg1, demo_msg2, demo_msg3]"
  by (simp add: demo_db_def)

lemma demo_authorized: "authorized demo_db 1 demo_job" "authorized demo_db 2 demo_job"
  by (simp_all add: authorized_def demo_db_def demo_job_def demo_app1_def)

section \<open>The loop of the conversation list\<close>

lemma conversations_loop_Cons:
  "conversations_loop d u (m # ms) convs =
     (if conv_key u m \<notin> set (map fst convs)
      then conversations_loop d u ms (convs @ [(conv_key u m, new_entry d u m)])
      else conversations_loop d u ms convs)"
  by (simp add: conv_key_def new_entry_def counterpart_def Let_def)

lemma loop_keys:
  "set (map fst (conversations_loop d u ms convs)) = set (map fst convs) \<union> conv_key u ` set ms"
proof (induction ms arbitrary: convs)
  case Nil
  then show ?case by simp
next
  case (Cons m ms)
  show ?case
    unfolding conversations_loop_Cons using Cons.IH
    by (cases "conv_key u m \<in> set (map fst convs)") (force simp del: conversations_loop.simps)+
qed

lemma loop_distinct:
  "distinct (map fst convs) \<Longrightarrow> distinct (map fst (conversations_loop d u ms convs))"
proof (induction ms arbitrary: convs)
  case Nil
  then show ?case by simp
next
  case (Cons m ms)
  show ?case
    unfolding conversations_loop_Cons using Cons.IH Cons.prems by simp
qed

lemma loop_entries:
  "(k, e) \<in> set (conversations_loop d u ms convs) \<Longrightarrow>
   (k, e) \<in> set convs \<or>
   (k \<notin> set (map fst convs) \<and>
    (\<exists>ms1 m ms2. ms = ms1 @ m # ms2 \<and> conv_key u m = k \<and> k \<notin> conv_key u ` set ms1
                  \<and> e = new_entry d u m))"
proof (induction ms arbitrary: convs)
  case Nil
  then show ?case by simp
next
  case (Cons m ms)
  let ?convs' = "if conv_key u m \<notin> set (map fst convs)
                 then convs @ [(conv_key u m, new_entry d u m)] else convs"
  have "(k, e) \<in> set (conversations_loop d u ms ?convs')"
    using Cons.prems unfolding conversations_loop_Cons by (simp split: if_splits)
  from Cons.IH[OF this] consider
      (old) "(k, e) \<in> set convs"
    | (head) "conv_key u m \<notin> set (map fst convs)" "(k, e) = (conv_key u m, new_entry d u m)"
    | (later) ms1 m' ms2 where "k \<notin> set (map fst ?convs')" "ms = ms1 @ m' # ms2"
        "conv_key u m' = k" "k \<notin> conv_key u ` set ms1" "e = new_entry d u m'"
    by (auto split: if_splits)
  then show ?case
  proof cases
    case old
    then show ?thesis by simp
  next
    case head
    then have "m # ms = [] @ m # ms \<and> conv_key u m = k \<and> k \<notin> conv_key u ` set []
        \<and> e = new_entry d u m" by simp
    moreover have "k \<notin> set (map fst convs)" using head by simp
    ultimately show ?thesis by blast
  next
    case later
    have ne: "conv_key u m \<noteq> k" and nk: "k \<notin> set (map fst convs)"
      using later(1) by (auto split: if_splits)
    have "m # ms = (m # ms1) @ m' # ms2 \<and> conv_key u m' = k
        \<and> k \<notin> conv_key u ` set (m # ms1) \<and> e = new_entry d u m'"
      using later ne by auto
    with nk show ?thesis by blast
  qed
qed

lemma in_thread_iff_key:
  "in_thread j u c m \<longleftrightarrow> (sender m = u \<or> receiver m = u) \<and> conv_key u m = (c, j)"
  by (auto simp: in_thread_def conv_key_def counterpart_def)

lemma in_thread_unread_iff:
  "in_thread j u c m \<and> receiver m = u \<and> \<not> msg_read m
     \<longleftrightarrow> msg_job m = j \<and> receiver m = u \<and> sender m = c \<and> \<not> msg_read m"
  by (auto simp: in_thread_def)

lemma sorted_reverse_mset [simp]: "mset (sorted_reverse f xs) = mset xs"
  by (simp add: sorted_reverse_def)

lemma sorted_reverse_set [simp]: "set (sorted_reverse f xs) = set xs"
  by (simp add: sorted_reverse_def)

lemma sorted_reverse_desc: "sorted (rev (map f (sorted_reverse f xs)))"
  by (simp add: sorted_reverse_def rev_map)

lemma sorted_reverse_distinct:
  "distinct (map g (sorted_reverse f xs)) \<longleftrightarrow> distinct (map g xs)"
  by (rule mset_eq_imp_distinct_iff) simp

text \<open>In a list in descending order of time, the first message of a group is its latest.\<close>

lemma first_of_group_is_latest:
  assumes "sorted (map timestamp (rev ms))" and "ms = ms1 @ m # ms2"
    and "\<forall>x \<in> set ms1. \<not> P x" and "P m"
  shows "Max (timestamp ` {x \<in> set ms. P x}) = timestamp m"
proof (rule Max_eqI)
  show "finite (timestamp ` {x \<in> set ms. P x})" by simp
  show "timestamp m \<in> timestamp ` {x \<in> set ms. P x}" using assms by auto
next
  fix t assume "t \<in> timestamp ` {x \<in> set ms. P x}"
  then obtain x where x: "x \<in> set ms" "P x" "t = timestamp x" by auto
  have "x = m \<or> x \<in> set ms2" using x assms(2,3) by auto
  moreover have "\<forall>y \<in> set ms2. timestamp y \<le> timestamp m"
    using assms(1,2) by (auto simp: sorted_append rev_map)
  ultimately show "t \<le> timestamp m" using x(3) by auto
qed

lemma set_involved_messages:
  "set (involved_messages d u) = {m \<in> set (messages d). sender m = u \<or> receiver m = u}"
  by (auto simp: involved_messages_def order_by_desc_def)

lemma involved_messages_desc: "sorted (map timestamp (rev (involved_messages d u)))"
  by (simp add: involved_messages_def order_by_desc_def)

lemma thread_as_group:
  "{x \<in> set (messages d). in_thread j u c x}
     = {x \<in> set (involved_messages d u). conv_key u x = (c, j)}"
  by (auto simp: set_involved_messages in_thread_iff_key)

lemma new_entry_fields [simp]:
  "conv_job (new_entry d u m) = msg_job m"
  "conv_other_user (new_entry d u m) = counterpart u m"
  "last_message_time (new_entry d u m) = timestamp m"
  by (simp_all add: new_entry_def)

lemma new_entry_unread:
  "unread_count (new_entry d u m) =
     length (filter (\<lambda>x. in_thread (msg_job m) u (counterpart u m) x \<and> receiver x = u
                          \<and> \<not> msg_read x) (messages d))"
  by (simp add: new_entry_def in_thread_unread_iff)

lemma loop_entry_facts:
  assumes "(k, e) \<in> set (conversations_loop d u (involved_messages d u) [])"
  shows "k = (conv_other_user e, conv_job e)
       \<and> unread_count e =
           length (filter (\<lambda>x. in_thread (conv_job e) u (conv_other_user e) x \<and> receiver x = u
                                \<and> \<not> msg_read x) (messages d))
       \<and> last_message_time e =
           Max (timestamp ` {x \<in> set (messages d). in_thread (conv_job e) u (conv_other_user e) x})"
proof -
  obtain ms1 m ms2 where dec: "involved_messages d u = ms1 @ m # ms2"
    and k: "conv_key u m = k" and first: "k \<notin> conv_key u ` set ms1"
    and e: "e = new_entry d u m"
    using loop_entries[OF assms] by auto
  have key: "k = (conv_other_user e, conv_job e)"
    using k e by (simp add: conv_key_def)
  have "Max (timestamp ` {x \<in> set (involved_messages d u). conv_key u x = k}) = timestamp m"
    using involved_messages_desc dec _ k
    by (rule first_of_group_is_latest) (use first in auto)
  then have "last_message_time e =
      Max (timestamp ` {x \<in> set (messages d). in_thread (conv_job e) u (conv_other_user e) x})"
    using e key by (simp add: thread_as_group)
  with key e show ?thesis by (simp add: new_entry_unread)
qed

lemma sorted_conversations_alt:
  "sorted_conversations d u =
     sorted_reverse last_message_time
       (map snd (conversations_loop d u (involved_messages d u) []))"
  by (simp add: sorted_conversations_def involved_messages_def)

lemma loop_pairs:
  "map (\<lambda>e. (conv_job e, conv_other_user e))
       (map snd (conversations_loop d u (involved_messages d u) []))
     = map (prod.swap \<circ> fst) (conversations_loop d u (involved_messages d u) [])"
  using loop_entry_facts by (auto simp: prod.swap_def)

lemma demo_sorted_conversations:
  "sorted_conversations demo_db 2 =
     [\<lparr>conv_job = 1, conv_other_user = 2, last_message_time = 10, unread_count = 1\<rparr>,
      \<lparr>conv_job = 1, conv_other_user = 1, last_message_time = 9, unread_count = 1\<rparr>]"
  by code_simp

section \<open>The exact effect of one request on an application\<close>

lemma accept_application_exact:
  assumes "get_application d i = Some ap"
  shows "get_application (snd (accept_application d r aid)) i =
           (if aid = i \<and> owner_posts d r (app_job ap)
            then Some (ap\<lparr>app_status := Accepted\<rparr>) else Some ap)"
proof (cases "aid = i")
  case True
  then show ?thesis
    using assms get_application_id[OF assms]
    by (auto simp: accept_application_def owner_posts_def Let_def
          get_application_save_application split: option.splits)
next
  case False
  then show ?thesis
    using accept_application_get_application[OF assms, of r aid] by simp
qed

lemma reject_application_exact:
  assumes "get_application d i = Some ap"
  shows "get_application (snd (reject_application d r aid)) i =
           (if aid = i \<and> owner_posts d r (app_job ap)
            then Some (ap\<lparr>app_status := Rejected\<rparr>) else Some ap)"
proof (cases "aid = i")
  case True
  then show ?thesis
    using assms get_application_id[OF assms]
    by (auto simp: reject_application_def owner_posts_def Let_def
          get_application_save_application split: option.splits)
next
  case False
  then show ?thesis
    using reject_application_get_application[OF assms, of r aid] by simp
qed

lemma complete_job_not_owner:
  "\<not> owner_posts d r jid \<Longrightarrow> snd (complete_job d r jid) = d"
  by (simp add: complete_job_def owner_posts_def split: option.splits)

lemma complete_job_exact:
  assumes "get_application d i = Some ap"
  shows "get_application (snd (complete_job d r jid)) i =
           (if jid = app_job ap \<and> owner_posts d r jid \<and> app_status ap \<noteq> Accepted
            then Some (ap\<lparr>app_status := Rejected\<rparr>) else Some ap)"
proof (cases "owner_posts d r jid")
  case False
  then show ?thesis using assms by (simp add: complete_job_not_owner)
next
  case True
  then obtain usr jb where h: "req_method r = POST" "req_user r = Some usr"
      "get_job d jid = Some jb" "owner jb = Some usr"
    unfolding owner_posts_def by blast
  have j: "job_id jb = jid" using h(3) by (rule get_job_id)
  let ?g = "\<lambda>a. if app_job a = jid \<and> app_status a \<noteq> Accepted
                 then a\<lparr>app_status := Rejected\<rparr> else a"
  let ?d1 = "save_job d (jb\<lparr>job_status := Completed\<rparr>)"
  have c: "snd (complete_job d r jid) = ?d1\<lparr>applications := map ?g (applications ?d1)\<rparr>"
    using h j by (simp add: complete_job_def Let_def)
  have "get_application ?d1 i = Some ap" using assms by simp
  then have "get_application (?d1\<lparr>applications := map ?g (applications ?d1)\<rparr>) i = Some (?g ap)"
    by (simp add: get_application_def find_map_same_key [where f = app_id and g = ?g])
  then show ?thesis using c True by simp
qed

lemma delete_application_exact:
  assumes "get_application d i = Some ap"
  shows "get_application (snd (delete_application d r aid)) i =
           (if aid = i \<and> applicant_posts r ap \<and> app_status ap = Rejected
            then None else Some ap)"
proof (cases "aid = i")
  case True
  have "get_application (d\<lparr>applications := filter (\<lambda>a. app_id a \<noteq> i) (applications d)\<rparr>) i = None"
    by (simp add: get_application_def find_filter_key)
  then show ?thesis
    using True assms get_application_id[OF assms]
    by (auto simp: delete_application_def applicant_posts_def split: option.splits)
next
  case False
  then show ?thesis
    using delete_application_get_application[OF assms, of r aid] by auto
qed

section \<open>More on read flags and the scenario\<close>

lemma mark_read_row:
  "k < length (messages d) \<Longrightarrow>
   messages (mark_read d jid u uid) ! k =
     (if in_thread jid u uid (messages d ! k) \<and> receiver (messages d ! k) = u
          \<and> \<not> msg_read (messages d ! k)
      then (messages d ! k)\<lparr>msg_read := True\<rparr> else messages d ! k)"
  by (auto simp: mark_read_messages_nth in_thread_def)

lemma mark_read_rest: "mark_read d jid u uid = d\<lparr>messages := messages (mark_read d jid u uid)\<rparr>"
  by (simp add: mark_read_def)

lemma mark_read_seq [simp]: "message_seq (mark_read d jid u uid) = message_seq d"
  by (simp add: mark_read_def)

lemma demo_db_before_note_reachable:
  "run never_int empty_db (butlast demo_requests) = demo_db_before_note"
  by code_simp

lemma demo_before_note_lookups [simp]:
  "get_job demo_db_before_note 1 = Some demo_job"
  "get_user demo_db_before_note 2 = Some (demo_user 2 ''f1'')"
  "authorized demo_db_before_note 1 demo_job"
  by (simp_all add: demo_db_before_note_def get_job_def get_user_def authorized_def
        demo_db_def demo_job_def demo_user_def)

lemma demo_owner_posts:
  "owner_posts demo_db (user_post 1 kvs t) 1"
  "\<not> owner_posts demo_db (user_post 3 kvs t) 1"
  by (simp_all add: owner_posts_def del: One_nat_def)

lemma demo_applicant_posts:
  "applicant_posts (user_post 3 kvs t) (demo_app2\<lparr>app_status := Rejected\<rparr>)"
  by (simp add: applicant_posts_def demo_app2_def)

section \<open>The job status over time\<close>

text \<open>
  Claim C1, as stated, fails. The client completes job 1 and then accepts application 1
  again: \<open>accept_application\<close> sets the status to in_progress without looking at it, so
  the job goes from completed back to in_progress.
\<close>

theorem job_status_backward_counterexample:
  "map_option job_status
     (get_job (run never_int empty_db
        (demo_requests @ [(user_post 1 [] 11, CompleteJobUrl 1)])) 1) = Some Completed
   \<and> map_option job_status
     (get_job (run never_int empty_db
        (demo_requests @ [(user_post 1 [] 11, CompleteJobUrl 1),
                          (user_post 1 [] 12, AcceptApplicationUrl 1)])) 1) = Some InProgress"
proof -
  have c: "run never_int empty_db (demo_requests @ [(user_post 1 [] 11, CompleteJobUrl 1)])
             = demo_db_completed"
    by (simp only: run_append demo_db_reachable demo_db_completed_reachable)
  have "run never_int empty_db
          (demo_requests @ [(user_post 1 [] 11, CompleteJobUrl 1),
                            (user_post 1 [] 12, AcceptApplicationUrl 1)])
        = run never_int demo_db_completed [(user_post 1 [] 12, AcceptApplicationUrl 1)]"
    using c run_append [of never_int empty_db
        "demo_requests @ [(user_post 1 [] 11, CompleteJobUrl 1)]"
        "[(user_post 1 [] 12, AcceptApplicationUrl 1)]"]
    by simp
  moreover have "map_option job_status
      (get_job (run never_int demo_db_completed [(user_post 1 [] 12, AcceptApplicationUrl 1)]) 1)
      = Some InProgress"
    by (simp add: accept_application_def Let_def get_job_save_job del: One_nat_def)
  ultimately show ?thesis
    using c by (simp del: One_nat_def)
qed

text \<open>
  Claim C1, amended. A job is never removed, and no request ever moves its status back
  to open: after any sequence of requests, a job whose status was in_progress or
  completed has a status other than open. In one request the status stays as it was, or
  becomes in_progress through \<open>accept_application\<close> (from any status, completed
  included), or becomes completed through \<open>complete_job\<close> for that job.
\<close>

theorem job_status_never_reopens:
  assumes "get_job d j = Some jb"
  shows "(\<exists>jb'. get_job (run py d rs) j = Some jb'
            \<and> (job_status jb \<noteq> Open \<longrightarrow> job_status jb' \<noteq> Open))
       \<and> (\<exists>jb'. get_job (snd (dispatch py d r u)) j = Some jb'
            \<and> (job_status jb' = job_status jb
               \<or> job_status jb' = InProgress \<and> (\<exists>a. u = AcceptApplicationUrl a)
               \<or> job_status jb' = Completed \<and> u = CompleteJobUrl j))"
  using run_job_not_reopened[OF assms] dispatch_job_status[OF assms] by blast

theorem job_status_never_reopens_witness:
  "(\<exists>jb'. get_job (run never_int demo_db_completed
                     [(user_post 1 [] 12, AcceptApplicationUrl 1)]) 1 = Some jb'
           \<and> job_status jb' \<noteq> Open)
   \<and> (\<exists>jb'. get_job (snd (dispatch never_int demo_db_completed (user_post 1 [] 12)
                            (AcceptApplicationUrl 1))) 1 = Some jb'
           \<and> job_status jb' = InProgress)"
proof -
  have a: "map_option job_status
      (get_job (snd (dispatch never_int demo_db_completed (user_post 1 [] 12)
                            (AcceptApplicationUrl 1))) 1) = Some InProgress"
    by (simp add: accept_application_def Let_def get_job_save_job del: One_nat_def)
  show ?thesis
    using a job_status_never_reopens [of demo_db_completed 1 "demo_job\<lparr>job_status := Completed\<rparr>"
        never_int "[(user_post 1 [] 12, AcceptApplicationUrl 1)]" "user_post 1 [] 12"
        "AcceptApplicationUrl 1"]
    by (auto simp del: One_nat_def)
qed

section \<open>The application status over time\<close>

text \<open>
  Claim C2, as stated, fails. Application 1 is accepted; the client rejects it and it is
  rejected; the client accepts it again and it is accepted. Neither view looks at the
  current status.
\<close>

theorem application_status_counterexample:
  "map_option app_status (get_application (run never_int empty_db demo_requests) 1) = Some Accepted
   \<and> map_option app_status
       (get_application (run never_int empty_db
          (demo_requests @ [(user_post 1 [] 11, RejectApplicationUrl 1)])) 1) = Some Rejected
   \<and> map_option app_status
       (get_application (run never_int empty_db
          (demo_requests @ [(user_post 1 [] 11, RejectApplicationUrl 1),
                            (user_post 1 [] 12, AcceptApplicationUrl 1)])) 1) = Some Accepted"
proof -
  have r: "get_application (snd (reject_application demo_db (user_post 1 [] 11) 1)) 1
             = Some (demo_app1\<lparr>app_status := Rejected\<rparr>)"
    by (simp add: reject_application_def Let_def get_application_save_application
          del: One_nat_def)
  have j: "get_job (snd (reject_application demo_db (user_post 1 [] 11) 1)) 1 = Some demo_job"
    by (simp add: reject_application_def Let_def del: One_nat_def)
  have a: "map_option app_status (get_application
             (snd (accept_application (snd (reject_application demo_db (user_post 1 [] 11) 1))
                (user_post 1 [] 12) 1)) 1) = Some Accepted"
    using r j
    by (simp add: accept_application_def Let_def get_application_save_application
          del: One_nat_def)
  show ?thesis
    using r a by (simp add: run_append demo_db_reachable del: One_nat_def)
qed

text \<open>
  Claim C2, amended. One request does the following to an existing application, and
  nothing else. It becomes accepted exactly when the owner of its job POSTs
  \<open>accept_application\<close> for it, whatever its status was. It becomes rejected exactly
  when the owner of its job POSTs \<open>reject_application\<close> for it, whatever its status
  was, or POSTs \<open>complete_job\<close> for its job while it is not accepted. It is removed
  exactly when its applicant POSTs \<open>delete_application\<close> for it while it is rejected.
  In every other case the row is unchanged. Only the status field ever changes, and no
  request sets it to pending.
\<close>

theorem application_status_step:
  assumes "get_application d i = Some ap"
  shows "get_application (snd (dispatch py d r u)) i =
           (if u = AcceptApplicationUrl i \<and> owner_posts d r (app_job ap)
              then Some (ap\<lparr>app_status := Accepted\<rparr>)
            else if u = RejectApplicationUrl i \<and> owner_posts d r (app_job ap)
              then Some (ap\<lparr>app_status := Rejected\<rparr>)
            else if u = CompleteJobUrl (app_job ap) \<and> owner_posts d r (app_job ap)
                    \<and> app_status ap \<noteq> Accepted
              then Some (ap\<lparr>app_status := Rejected\<rparr>)
            else if u = DeleteApplicationUrl i \<and> applicant_posts r ap \<and> app_status ap = Rejected
              then None
            else Some ap)"
proof (cases u)
  case (ApplyJobUrl jid)
  then show ?thesis using apply_job_get_application[OF assms] by simp
next
  case (AcceptApplicationUrl a)
  then show ?thesis using accept_application_exact[OF assms, of r a] by auto
next
  case (RejectApplicationUrl a)
  then show ?thesis using reject_application_exact[OF assms, of r a] by auto
next
  case (CompleteJobUrl jid)
  then show ?thesis using complete_job_exact[OF assms, of r jid] by auto
next
  case (DeleteApplicationUrl a)
  then show ?thesis using delete_application_exact[OF assms, of r a] by auto
qed (use assms in \<open>simp_all add: get_application_def applications_unchanged\<close>)

theorem application_status_step_witness:
  "get_application (snd (dispatch never_int demo_db (user_post 1 [] 11) (RejectApplicationUrl 1))) 1
     = Some (demo_app1\<lparr>app_status := Rejected\<rparr>)
   \<and> get_application (snd (dispatch never_int demo_db (user_post 3 [] 11) (RejectApplicationUrl 1))) 1
     = Some demo_app1
   \<and> get_application (snd (dispatch never_int demo_db_completed (user_post 3 [] 12)
        (DeleteApplicationUrl 2))) 2 = None"
  using application_status_step [of demo_db 1 demo_app1 never_int "user_post 1 [] 11"
        "RejectApplicationUrl 1"]
    application_status_step [of demo_db 1 demo_app1 never_int "user_post 3 [] 11"
        "RejectApplicationUrl 1"]
    application_status_step [of demo_db_completed 2 "demo_app2\<lparr>app_status := Rejected\<rparr>"
        never_int "user_post 3 [] 12" "DeleteApplicationUrl 2"]
    demo_owner_posts [of "[]" 11] demo_applicant_posts [of "[]" 12]
  by (simp del: One_nat_def dispatch.simps)

section \<open>Accepting an application\<close>

text \<open>
  Claim C3. Let an authenticated actor POST to \<open>accept_application\<close> for an existing
  application whose job exists. If the actor is the owner of the application's job,
  then afterwards the application's status is accepted and the job's status is
  in_progress, whatever the job's status was before. If the actor is not the owner,
  the response is forbidden and the store is returned as it was, so neither status
  changes.
\<close>

theorem accept_application_effect:
  assumes "req_user r = Some u" and "req_method r = POST"
    and "get_application d aid = Some ap" and "get_job d (app_job ap) = Some jb"
  shows "(owner jb = Some u \<longrightarrow>
            (\<exists>d'. accept_application d r aid = (Redirect ''job_applications'' [job_id jb], d')
               \<and> map_option app_status (get_application d' aid) = Some Accepted
               \<and> map_option job_status (get_job d' (app_job ap)) = Some InProgress))
       \<and> (owner jb \<noteq> Some u \<longrightarrow>
            (\<exists>msg. accept_application d r aid = (HttpResponseForbidden msg, d)))"
proof -
  have a: "app_id ap = aid" using assms(3) by (rule get_application_id)
  have j: "job_id jb = app_job ap" using assms(4) by (rule get_job_id)
  show ?thesis
    using assms a j
    by (simp add: accept_application_def Let_def get_application_save_application get_job_save_job)
qed

theorem accept_application_effect_witness:
  "(\<exists>d'. accept_application demo_db (user_post 1 [] 11) 2 = (Redirect ''job_applications'' [1], d')
      \<and> map_option app_status (get_application d' 2) = Some Accepted
      \<and> map_option job_status (get_job d' 1) = Some InProgress)
   \<and> (\<exists>msg. accept_application demo_db (user_post 2 [] 11) 2 = (HttpResponseForbidden msg, demo_db))"
  using accept_application_effect [of "user_post 1 [] 11" 1 demo_db 2 demo_app2 demo_job]
    accept_application_effect [of "user_post 2 [] 11" 2 demo_db 2 demo_app2 demo_job]
  by (simp del: One_nat_def)

section \<open>Completing a job\<close>

text \<open>
  Claim C4. When the owner of an existing job POSTs to \<open>complete_job\<close>, the job's status
  is completed afterwards, the application table keeps its rows in place, every
  application under that job whose status was not accepted is the same row with status
  rejected, every application under that job whose status was accepted is unchanged, and
  the applications under other jobs are unchanged.
\<close>

theorem complete_job_effect:
  assumes "req_user r = Some u" and "req_method r = POST"
    and "get_job d jid = Some jb" and "owner jb = Some u"
  shows "\<exists>d'. complete_job d r jid = (Redirect ''my_jobs'' [], d')
           \<and> map_option job_status (get_job d' jid) = Some Completed
           \<and> length (applications d') = length (applications d)
           \<and> (\<forall>k < length (applications d).
                 (app_job (applications d ! k) = jid \<and> app_status (applications d ! k) \<noteq> Accepted
                    \<longrightarrow> applications d' ! k = (applications d ! k)\<lparr>app_status := Rejected\<rparr>)
               \<and> (app_job (applications d ! k) = jid \<and> app_status (applications d ! k) = Accepted
                    \<longrightarrow> applications d' ! k = applications d ! k)
               \<and> (app_job (applications d ! k) \<noteq> jid
                    \<longrightarrow> applications d' ! k = applications d ! k))"
proof -
  have j: "job_id jb = jid" using assms(3) by (rule get_job_id)
  show ?thesis
    using assms j
    by (simp add: complete_job_def Let_def get_job_def save_job_def find_map_overwrite)
qed

theorem complete_job_effect_witness:
  "complete_job demo_db (user_post 1 [] 11) 1 = (Redirect ''my_jobs'' [], demo_db_completed)"
proof -
  obtain d' where c: "complete_job demo_db (user_post 1 [] 11) 1 = (Redirect ''my_jobs'' [], d')"
    using complete_job_effect [of "user_post 1 [] 11" 1 demo_db 1 demo_job]
    by (auto simp del: One_nat_def)
  have "d' = snd (complete_job demo_db (user_post 1 [] 11) 1)" using c by simp
  also have "\<dots> = demo_db_completed"
    using demo_db_completed_reachable [of never_int] by (simp del: One_nat_def)
  finally show ?thesis using c by simp
qed

section \<open>Deleting an application\<close>

text \<open>
  Claim C5. For an authenticated requester POSTing to \<open>delete_application\<close> for an
  existing application: the row is gone afterwards if and only if the requester is the
  application's applicant_user and its status is rejected; in that case exactly the rows
  with that primary key are removed; in every other case the response is the denial and
  the store, with every field of the row, is unchanged.
\<close>

theorem delete_application_effect:
  assumes "req_user r = Some u" and "req_method r = POST"
    and "get_application d aid = Some ap"
  shows "(get_application (snd (delete_application d r aid)) aid = None
            \<longleftrightarrow> applicant_user ap = Some u \<and> app_status ap = Rejected)
       \<and> (applicant_user ap = Some u \<and> app_status ap = Rejected \<longrightarrow>
            delete_application d r aid =
              (Redirect ''my_applications'' [],
               d\<lparr>applications := filter (\<lambda>a. app_id a \<noteq> aid) (applications d)\<rparr>))
       \<and> (\<not> (applicant_user ap = Some u \<and> app_status ap = Rejected) \<longrightarrow>
            (\<exists>msg. delete_application d r aid = (HttpResponseForbidden msg, d)))"
proof -
  have a: "app_id ap = aid" using assms(3) by (rule get_application_id)
  have gone: "get_application (d\<lparr>applications := filter (\<lambda>a. app_id a \<noteq> aid) (applications d)\<rparr>) aid = None"
    by (simp add: get_application_def find_filter_key)
  show ?thesis
    using assms a gone
    by (auto simp add: delete_application_def)
qed

theorem delete_application_effect_witness:
  "get_application (snd (delete_application demo_db_completed (user_post 3 [] 12) 2)) 2 = None
   \<and> delete_application demo_db_completed (user_post 2 [] 12) 2
       = (HttpResponseForbidden ''Not allowed to delete this application'', demo_db_completed)
   \<and> delete_application demo_db_completed (user_post 2 [] 12) 1
       = (HttpResponseForbidden ''Not allowed to delete this application'', demo_db_completed)"
  using delete_application_effect [of "user_post 3 [] 12" 3 demo_db_completed 2 "demo_app2\<lparr>app_status := Rejected\<rparr>"]
    delete_application_effect [of "user_post 2 [] 12" 2 demo_db_completed 2 "demo_app2\<lparr>app_status := Rejected\<rparr>"]
    delete_application_effect [of "user_post 2 [] 12" 2 demo_db_completed 1 demo_app1]
  by (simp add: demo_app1_def demo_app2_def delete_application_def del: One_nat_def)

section \<open>Viewing a thread\<close>

text \<open>
  Claim C6, as stated, fails when the viewer and the other user are the same user. User 2 has
  sent two messages in job 1, one of them to user 2; it is unread. After user 2 views
  the thread of job 1 with user 2, that message, sent by the viewer, is marked read.
\<close>

theorem self_thread_read_flag_counterexample:
  "map msg_read (filter (\<lambda>m. sender m = 2) (messages (run never_int empty_db demo_requests)))
     = [True, False]
   \<and> map msg_read (filter (\<lambda>m. sender m = 2)
        (messages (run never_int empty_db (demo_requests @ [(user_get 2 11, ConversationUrl 1 2)]))))
     = [True, True]"
proof -
  have "is_accepted_applicant demo_db 2 demo_job"
    using demo_authorized(2) by (simp add: authorized_iff is_job_owner_def)
  then have "messages (snd (conversation demo_db (user_get 2 11) 1 2))
               = [demo_msg1, demo_msg2, demo_msg3\<lparr>msg_read := True\<rparr>]"
    by (simp add: conversation_def Let_def mark_read_def demo_user_def
          demo_msg1_def demo_msg2_def demo_msg3_def del: One_nat_def)
  then show ?thesis
    by (simp add: run_append demo_db_reachable del: One_nat_def)
       (simp add: demo_msg1_def demo_msg2_def demo_msg3_def)
qed

text \<open>
  Claim C6, amended. For an authorized viewer \<open>u\<close>, an existing job and an existing user
  \<open>uid\<close>, a GET of \<open>conversation\<close> shows exactly the messages of the job between the two
  users, in either direction, with the flags they have after the request, ordered by
  timestamp ascending; these are the rows that were in the thread before. Every message
  of the thread received by \<open>u\<close> and unread is marked read; every message sent by \<open>u\<close> to
  a user other than \<open>u\<close> is unchanged (so all messages sent by \<open>u\<close> are, when \<open>uid\<close> is
  another user); and every other row and table is unchanged.
\<close>

theorem conversation_thread_and_read_flags:
  assumes "req_user r = Some u" and "req_method r = GET"
    and "get_job d jid = Some jb" and "get_user d uid = Some other"
    and "authorized d u jb"
  shows "\<exists>msgs d'. conversation d r jid uid =
             (Render ''jobs/conversation.html'' (ConversationCtx jb other msgs), d')
           \<and> mset msgs = filter_mset (in_thread jid u uid) (mset (messages d'))
           \<and> mset (map msg_id msgs) = mset (map msg_id (filter (in_thread jid u uid) (messages d)))
           \<and> sorted (map timestamp msgs)
           \<and> d' = d\<lparr>messages := messages d'\<rparr>
           \<and> length (messages d') = length (messages d)
           \<and> (\<forall>k < length (messages d).
                 (in_thread jid u uid (messages d ! k) \<and> receiver (messages d ! k) = u
                    \<and> \<not> msg_read (messages d ! k)
                    \<longrightarrow> messages d' ! k = (messages d ! k)\<lparr>msg_read := True\<rparr>)
               \<and> (sender (messages d ! k) = u \<and> (receiver (messages d ! k) \<noteq> u \<or> uid \<noteq> u)
                    \<longrightarrow> messages d' ! k = messages d ! k)
               \<and> (\<not> (in_thread jid u uid (messages d ! k) \<and> receiver (messages d ! k) = u
                       \<and> \<not> msg_read (messages d ! k))
                    \<longrightarrow> messages d' ! k = messages d ! k))"
proof -
  have j: "job_id jb = jid" using assms(3) by (rule get_job_id)
  have o: "user_id other = uid" using assms(4) unfolding get_user_def by (rule find_key)
  let ?d' = "mark_read d jid u uid"
  have c: "conversation d r jid uid =
             (Render ''jobs/conversation.html''
                (ConversationCtx jb other (thread_messages ?d' jid u uid)), ?d')"
    using assms j o by (simp add: conversation_def Let_def authorized_iff)
  have rest: "?d' = d\<lparr>messages := messages ?d'\<rparr>"
    by (simp add: mark_read_def)
  have flags: "\<forall>k < length (messages d).
                 (in_thread jid u uid (messages d ! k) \<and> receiver (messages d ! k) = u
                    \<and> \<not> msg_read (messages d ! k)
                    \<longrightarrow> messages ?d' ! k = (messages d ! k)\<lparr>msg_read := True\<rparr>)
               \<and> (sender (messages d ! k) = u \<and> (receiver (messages d ! k) \<noteq> u \<or> uid \<noteq> u)
                    \<longrightarrow> messages ?d' ! k = messages d ! k)
               \<and> (\<not> (in_thread jid u uid (messages d ! k) \<and> receiver (messages d ! k) = u
                       \<and> \<not> msg_read (messages d ! k))
                    \<longrightarrow> messages ?d' ! k = messages d ! k)"
    by (auto simp: mark_read_messages_nth in_thread_def)
  show ?thesis
    apply (rule exI [of _ "thread_messages ?d' jid u uid"])
    apply (rule exI [of _ ?d'])
    using c rest flags
    by (simp add: thread_messages_mset thread_messages_sorted thread_messages_mark_read_ids
          del: mset_map)
qed

theorem conversation_thread_and_read_flags_witness:
  "conversation demo_db (user_get 2 11) 1 1 =
     (Render ''jobs/conversation.html''
        (ConversationCtx demo_job (demo_user 1 ''c1'')
           [demo_msg1, demo_msg2\<lparr>msg_read := True\<rparr>]),
      demo_db\<lparr>messages := [demo_msg1, demo_msg2\<lparr>msg_read := True\<rparr>, demo_msg3]\<rparr>)"
proof -
  obtain msgs d' where c: "conversation demo_db (user_get 2 11) 1 1 =
             (Render ''jobs/conversation.html'' (ConversationCtx demo_job (demo_user 1 ''c1'') msgs), d')"
    using conversation_thread_and_read_flags [of "user_get 2 11" 2 demo_db 1 demo_job 1
        "demo_user 1 ''c1''"] demo_authorized(2)
    by (auto simp del: One_nat_def)
  have "is_accepted_applicant demo_db 2 demo_job"
    using demo_authorized(2) by (simp add: authorized_iff is_job_owner_def)
  then have "conversation demo_db (user_get 2 11) 1 1 =
     (Render ''jobs/conversation.html''
        (ConversationCtx demo_job (demo_user 1 ''c1'')
           [demo_msg1, demo_msg2\<lparr>msg_read := True\<rparr>]),
      demo_db\<lparr>messages := [demo_msg1, demo_msg2\<lparr>msg_read := True\<rparr>, demo_msg3]\<rparr>)"
    by (simp add: conversation_def Let_def mark_read_def demo_user_def thread_messages_def
          order_by_def demo_msg1_def demo_msg2_def demo_msg3_def del: One_nat_def)
  with c show ?thesis by simp
qed

section \<open>Clearing a conversation\<close>

text \<open>
  What an authorized \<open>clear_chat\<close> removes: the messages of the job between the requester
  and the other user, and also the messages of the job whose sender and receiver are
  the same one of the two.
\<close>

lemma clear_chat_deleted:
  assumes "req_user r = Some u" and "req_method r = POST"
    and "get_job d jid = Some jb" and "get_user d uid = Some other"
    and "authorized d u jb" and "m \<in> set (messages d)"
  shows "m \<notin> set (messages (snd (clear_chat d r jid uid))) \<longleftrightarrow>
           in_thread jid u uid m
           \<or> (msg_job m = jid \<and> sender m = receiver m \<and> (sender m = u \<or> sender m = uid))"
proof -
  have j: "job_id jb = jid" using assms(3) by (rule get_job_id)
  have o: "user_id other = uid" using assms(4) unfolding get_user_def by (rule find_key)
  show ?thesis
    using assms j o
    by (auto simp: clear_chat_def authorized_iff in_thread_def)
qed

text \<open>
  Claim C7 does not hold of the code. In the scenario user 2 has sent a message to
  user 2 in job 1; it is not a message between users 1 and 2. When the owner, user 1,
  clears the conversation of job 1 with user 2, that message is deleted with the rest.
\<close>

theorem clear_chat_deletes_self_messages:
  "demo_msg3 \<in> set (messages (run never_int empty_db demo_requests))
   \<and> \<not> in_thread 1 1 2 demo_msg3
   \<and> messages (run never_int empty_db
        (demo_requests @ [(user_post 1 [] 11, ClearChatUrl 1 2)])) = []"
proof -
  have "is_job_owner 1 demo_job" by (simp add: is_job_owner_def)
  then have "messages (snd (clear_chat demo_db (user_post 1 [] 11) 1 2)) = []"
    by (simp add: clear_chat_def demo_user_def demo_msg1_def demo_msg2_def demo_msg3_def
          del: One_nat_def)
  then show ?thesis
    by (simp add: run_append demo_db_reachable del: One_nat_def)
       (simp add: in_thread_def demo_msg3_def)
qed

section \<open>The conversation list\<close>

text \<open>
  Claim C8. For an authenticated user \<open>u\<close>, \<open>my_conversations\<close> lists entries with pairwise
  different (job, counterpart) pairs; a pair has an entry if and only if some message of
  that job is between \<open>u\<close> and the counterpart, in either direction; each entry carries
  the number of unread messages of its pair received by \<open>u\<close>, and the latest timestamp
  of its pair; and the entries are in descending order of that timestamp. The store is
  unchanged.
\<close>

theorem my_conversations_summary:
  assumes "req_user r = Some u"
  shows "\<exists>cs. my_conversations d r =
                 (Render ''jobs/my_conversations.html'' (ConversationsCtx cs), d)
           \<and> distinct (map (\<lambda>e. (conv_job e, conv_other_user e)) cs)
           \<and> (\<forall>j c. (\<exists>e \<in> set cs. conv_job e = j \<and> conv_other_user e = c)
                      \<longleftrightarrow> (\<exists>m \<in> set (messages d). in_thread j u c m))
           \<and> (\<forall>e \<in> set cs.
                 unread_count e =
                   length (filter (\<lambda>m. in_thread (conv_job e) u (conv_other_user e) m
                                        \<and> receiver m = u \<and> \<not> msg_read m) (messages d))
               \<and> last_message_time e =
                   Max (timestamp ` {m \<in> set (messages d).
                                       in_thread (conv_job e) u (conv_other_user e) m}))
           \<and> sorted (rev (map last_message_time cs))"
proof -
  let ?L = "conversations_loop d u (involved_messages d u) []"
  let ?cs = "sorted_conversations d u"
  have resp: "my_conversations d r =
                (Render ''jobs/my_conversations.html'' (ConversationsCtx ?cs), d)"
    using assms by (simp add: my_conversations_def)
  have mem: "e \<in> set ?cs \<longleftrightarrow> (\<exists>k. (k, e) \<in> set ?L)" for e
    by (force simp: sorted_conversations_alt)
  have "distinct (map fst ?L)" by (rule loop_distinct) simp
  then have "distinct (map prod.swap (map fst ?L))"
    by (subst distinct_map) (auto simp: inj_on_def prod_eq_iff)
  then have "distinct (map (prod.swap \<circ> fst) ?L)"
    by simp
  then have dist: "distinct (map (\<lambda>e. (conv_job e, conv_other_user e)) ?cs)"
    by (simp add: sorted_conversations_alt sorted_reverse_distinct loop_pairs del: map_map)
  have keys: "(\<exists>e \<in> set ?cs. conv_job e = j \<and> conv_other_user e = c)
                \<longleftrightarrow> (\<exists>m \<in> set (messages d). in_thread j u c m)" for j c
  proof -
    have "(\<exists>e \<in> set ?cs. conv_job e = j \<and> conv_other_user e = c)
            \<longleftrightarrow> (c, j) \<in> set (map fst ?L)"
    proof
      assume "\<exists>e \<in> set ?cs. conv_job e = j \<and> conv_other_user e = c"
      then obtain e k where "(k, e) \<in> set ?L" "conv_job e = j" "conv_other_user e = c"
        using mem by blast
      then have "((c, j), e) \<in> set ?L" using loop_entry_facts[of k e d u] by simp
      then show "(c, j) \<in> set (map fst ?L)" by force
    next
      assume "(c, j) \<in> set (map fst ?L)"
      then obtain e where e: "((c, j), e) \<in> set ?L" by auto
      then have "e \<in> set ?cs" using mem by blast
      moreover have "conv_job e = j \<and> conv_other_user e = c"
        using loop_entry_facts[OF e] by simp
      ultimately show "\<exists>e \<in> set ?cs. conv_job e = j \<and> conv_other_user e = c" by blast
    qed
    also have "\<dots> \<longleftrightarrow> (c, j) \<in> conv_key u ` set (involved_messages d u)"
      using loop_keys [of d u "involved_messages d u" "[]"] by simp
    also have "\<dots> \<longleftrightarrow> (\<exists>m \<in> set (messages d). in_thread j u c m)"
      unfolding set_involved_messages in_thread_iff_key image_iff by force
    finally show ?thesis .
  qed
  have entries: "\<forall>e \<in> set ?cs.
                 unread_count e =
                   length (filter (\<lambda>m. in_thread (conv_job e) u (conv_other_user e) m
                                        \<and> receiver m = u \<and> \<not> msg_read m) (messages d))
               \<and> last_message_time e =
                   Max (timestamp ` {m \<in> set (messages d).
                                       in_thread (conv_job e) u (conv_other_user e) m})"
    using loop_entry_facts[of _ _ d u] by (auto simp: mem)
  have desc: "sorted (rev (map last_message_time ?cs))"
    unfolding sorted_conversations_alt by (rule sorted_reverse_desc)
  show ?thesis
    using resp dist keys entries desc by blast
qed

theorem my_conversations_summary_witness:
  "my_conversations demo_db (user_get 2 11) =
     (Render ''jobs/my_conversations.html''
        (ConversationsCtx
           [\<lparr>conv_job = 1, conv_other_user = 2, last_message_time = 10, unread_count = 1\<rparr>,
            \<lparr>conv_job = 1, conv_other_user = 1, last_message_time = 9, unread_count = 1\<rparr>]),
      demo_db)"
proof -
  obtain cs where c: "my_conversations demo_db (user_get 2 11) =
      (Render ''jobs/my_conversations.html'' (ConversationsCtx cs), demo_db)"
    using my_conversations_summary [of "user_get 2 11" 2 demo_db] by auto
  then have "cs = sorted_conversations demo_db 2"
    by (simp add: my_conversations_def)
  with c show ?thesis by (simp only: demo_sorted_conversations)
qed

section \<open>Applying to a job\<close>

text \<open>
  Claim C9. \<open>apply_job\<close> does not look at the job's status: for every existing job, a
  freelancer who POSTs a non-empty applicant_name and a non-empty proposal gets a new
  row appended to the application table, pending, against that job and linked to the
  freelancer. The theorem has no assumption on \<open>job_status jb\<close>.
\<close>

theorem apply_job_any_status:
  assumes "req_user r = Some u" and "get_profile d u = Some p" and "profile_role p = Freelancer"
    and "get_job d jid = Some jb" and "req_method r = POST"
    and "req_POST r ''applicant_name'' = Some n" and "n \<noteq> []"
    and "req_POST r ''proposal'' = Some pr" and "pr \<noteq> []"
  shows "apply_job d r jid =
           (Redirect ''available_jobs'' [],
            d\<lparr>applications := applications d @
                 [\<lparr>app_id = application_seq d, app_job = jid, applicant_user = Some u,
                   applicant_name = n, proposal = pr, app_status = Pending,
                   app_created_at = req_now r\<rparr>],
               application_seq := Suc (application_seq d)\<rparr>)"
proof -
  have j: "job_id jb = jid" using assms(4) by (rule get_job_id)
  show ?thesis
    using assms j by (simp add: apply_job_def truthy_def str_value_def)
qed

theorem apply_job_any_status_witness:
  "map_option job_status (get_job demo_db_completed 1) = Some Completed
   \<and> apply_job demo_db_completed (user_post 3 [(''applicant_name'', ''F2''), (''proposal'', ''again'')] 12) 1 =
       (Redirect ''available_jobs'' [],
        demo_db_completed\<lparr>applications := applications demo_db_completed @
             [\<lparr>app_id = 3, app_job = 1, applicant_user = Some 3,
               applicant_name = ''F2'', proposal = ''again'', app_status = Pending,
               app_created_at = 12\<rparr>],
           application_seq := 4\<rparr>)"
proof -
  have s: "application_seq demo_db_completed = 3"
    by (simp add: demo_db_completed_def demo_db_def)
  have "apply_job demo_db_completed (user_post 3 [(''applicant_name'', ''F2''), (''proposal'', ''again'')] 12) 1 =
       (Redirect ''available_jobs'' [],
        demo_db_completed\<lparr>applications := applications demo_db_completed @
             [\<lparr>app_id = application_seq demo_db_completed, app_job = 1, applicant_user = Some 3,
               applicant_name = ''F2'', proposal = ''again'', app_status = Pending,
               app_created_at = req_now (user_post 3 [(''applicant_name'', ''F2''), (''proposal'', ''again'')] 12)\<rparr>],
           application_seq := Suc (application_seq demo_db_completed)\<rparr>)"
    by (rule apply_job_any_status [where u = 3 and jb = "demo_job\<lparr>job_status := Completed\<rparr>"
          and p = "\<lparr>profile_user = 3, profile_role = Freelancer, profile_created_at = 3\<rparr>"])
       (simp_all add: user_post_def form_def del: One_nat_def)
  then show ?thesis
    by (simp add: s user_post_def del: One_nat_def)
qed

section \<open>Authorization of the messaging views\<close>

text \<open>
  Claim C10. For an authenticated requester, an existing job and an existing counterpart
  user, \<open>conversation\<close> answers forbidden if and only if the requester is neither the
  job's owner nor an accepted applicant of the job, and so does \<open>clear_chat\<close> on a POST;
  the condition does not mention the counterpart. A requester who is refused changes
  nothing in the store. An authorized requester, with any existing counterpart, is shown
  exactly the messages of the job between the two, in ascending order of time, with the
  received unread ones marked read and nothing else changed; on a POST to
  \<open>conversation\<close> the flags are set the same way and a non-empty content is appended
  as a new unread message to the counterpart; on a POST to \<open>clear_chat\<close> the store is the
  old one without the messages of the job whose sender and receiver are both among the
  two users, so no message of the thread is left.
\<close>

theorem messaging_authorizes_requester_only:
  assumes "req_user r = Some u" and "get_job d jid = Some jb" and "get_user d uid = Some other"
  shows "((\<exists>msg. fst (conversation d r jid uid) = HttpResponseForbidden msg)
            \<longleftrightarrow> \<not> authorized d u jb)
       \<and> (req_method r = POST \<longrightarrow>
            ((\<exists>msg. fst (clear_chat d r jid uid) = HttpResponseForbidden msg)
               \<longleftrightarrow> \<not> authorized d u jb))
       \<and> (\<not> authorized d u jb \<longrightarrow>
            conversation d r jid uid =
              (HttpResponseForbidden ''Not authorized to view this conversation'', d)
          \<and> snd (clear_chat d r jid uid) = d
          \<and> (req_method r = POST \<longrightarrow>
               clear_chat d r jid uid =
                 (HttpResponseForbidden ''Not authorized to clear this chat'', d)))
       \<and> (authorized d u jb \<and> req_method r \<noteq> POST \<longrightarrow>
            (\<exists>msgs d'. conversation d r jid uid =
                 (Render ''jobs/conversation.html'' (ConversationCtx jb other msgs), d')
               \<and> mset msgs = filter_mset (in_thread jid u uid) (mset (messages d'))
               \<and> mset (map msg_id msgs)
                   = mset (map msg_id (filter (in_thread jid u uid) (messages d)))
               \<and> sorted (map timestamp msgs)
               \<and> d' = d\<lparr>messages := messages d'\<rparr>
               \<and> length (messages d') = length (messages d)
               \<and> (\<forall>k < length (messages d).
                     messages d' ! k =
                       (if in_thread jid u uid (messages d ! k) \<and> receiver (messages d ! k) = u
                            \<and> \<not> msg_read (messages d ! k)
                        then (messages d ! k)\<lparr>msg_read := True\<rparr> else messages d ! k))))
       \<and> (authorized d u jb \<and> req_method r = POST \<longrightarrow>
            clear_chat d r jid uid =
              (Redirect ''conversation'' [jid, uid],
               d\<lparr>messages :=
                   filter (\<lambda>m. \<not> (msg_job m = jid \<and> sender m \<in> {u, uid} \<and> receiver m \<in> {u, uid}))
                     (messages d)\<rparr>)
          \<and> (\<forall>m \<in> set (messages (snd (clear_chat d r jid uid))). \<not> in_thread jid u uid m)
          \<and> fst (conversation d r jid uid) = Redirect ''conversation'' [jid, uid]
          \<and> (\<exists>d' :: db. snd (conversation d r jid uid) = d\<lparr>messages := messages d', message_seq := message_seq d'\<rparr>
                \<and> length (messages d') = length (messages d)
                      + (if truthy (req_POST r ''content'') then 1 else 0)
                \<and> (\<forall>k < length (messages d).
                      messages d' ! k =
                        (if in_thread jid u uid (messages d ! k) \<and> receiver (messages d ! k) = u
                             \<and> \<not> msg_read (messages d ! k)
                         then (messages d ! k)\<lparr>msg_read := True\<rparr> else messages d ! k))
                \<and> (truthy (req_POST r ''content'') \<longrightarrow>
                      messages d' ! length (messages d) =
                        \<lparr>msg_id = message_seq d, sender = u, receiver = uid, msg_job = jid,
                          content = str_value (req_POST r ''content''), msg_read = False,
                          timestamp = req_now r\<rparr>)))"
proof -
  have j: "job_id jb = jid" using assms(2) by (rule get_job_id)
  have o: "user_id other = uid" using assms(3) unfolding get_user_def by (rule find_key)
  let ?d1 = "mark_read d jid u uid"
  have forb: "(\<exists>msg. fst (conversation d r jid uid) = HttpResponseForbidden msg)
            \<longleftrightarrow> \<not> authorized d u jb"
    using assms j o by (simp add: authorized_iff conversation_def Let_def)
  have forb_clear: "req_method r = POST \<longrightarrow>
            ((\<exists>msg. fst (clear_chat d r jid uid) = HttpResponseForbidden msg)
               \<longleftrightarrow> \<not> authorized d u jb)"
    using assms j o by (simp add: authorized_iff clear_chat_def)
  have denied: "\<not> authorized d u jb \<longrightarrow>
            conversation d r jid uid =
              (HttpResponseForbidden ''Not authorized to view this conversation'', d)
          \<and> snd (clear_chat d r jid uid) = d
          \<and> (req_method r = POST \<longrightarrow>
               clear_chat d r jid uid =
                 (HttpResponseForbidden ''Not authorized to clear this chat'', d))"
    using assms j o by (simp add: authorized_iff conversation_def clear_chat_def)
  have view: "authorized d u jb \<and> req_method r \<noteq> POST \<longrightarrow>
      conversation d r jid uid =
        (Render ''jobs/conversation.html'' (ConversationCtx jb other (thread_messages ?d1 jid u uid)), ?d1)"
    using assms j o by (simp add: authorized_iff conversation_def Let_def)
  have view_facts: "mset (thread_messages ?d1 jid u uid) = filter_mset (in_thread jid u uid) (mset (messages ?d1))
               \<and> mset (map msg_id (thread_messages ?d1 jid u uid))
                   = mset (map msg_id (filter (in_thread jid u uid) (messages d)))
               \<and> sorted (map timestamp (thread_messages ?d1 jid u uid))
               \<and> ?d1 = d\<lparr>messages := messages ?d1\<rparr>
               \<and> length (messages ?d1) = length (messages d)
               \<and> (\<forall>k < length (messages d).
                     messages ?d1 ! k =
                       (if in_thread jid u uid (messages d ! k) \<and> receiver (messages d ! k) = u
                            \<and> \<not> msg_read (messages d ! k)
                        then (messages d ! k)\<lparr>msg_read := True\<rparr> else messages d ! k))"
    using mark_read_rest [of d jid u uid]
    by (simp add: thread_messages_mset thread_messages_sorted thread_messages_mark_read_ids
          mark_read_row del: mset_map)
  have clear: "authorized d u jb \<and> req_method r = POST \<longrightarrow>
            clear_chat d r jid uid =
              (Redirect ''conversation'' [jid, uid],
               d\<lparr>messages :=
                   filter (\<lambda>m. \<not> (msg_job m = jid \<and> sender m \<in> {u, uid} \<and> receiver m \<in> {u, uid}))
                     (messages d)\<rparr>)"
    using assms j o by (simp add: authorized_iff clear_chat_def)
  have cleared: "authorized d u jb \<and> req_method r = POST \<longrightarrow>
      (\<forall>m \<in> set (messages (snd (clear_chat d r jid uid))). \<not> in_thread jid u uid m)"
    using clear by (auto simp: in_thread_def)
  let ?new = "\<lparr>msg_id = message_seq d, sender = u, receiver = uid, msg_job = jid,
                content = str_value (req_POST r ''content''), msg_read = False,
                timestamp = req_now r\<rparr>"
  let ?ms = "messages ?d1 @ (if truthy (req_POST r ''content'') then [?new] else [])"
  have post: "authorized d u jb \<and> req_method r = POST \<longrightarrow>
      fst (conversation d r jid uid) = Redirect ''conversation'' [jid, uid]
      \<and> snd (conversation d r jid uid)
          = d\<lparr>messages := ?ms,
               message_seq := (if truthy (req_POST r ''content'') then Suc (message_seq d)
                               else message_seq d)\<rparr>"
    using assms j o by (simp add: authorized_iff conversation_def Let_def mark_read_def)
  have post_facts: "length ?ms = length (messages d)
                      + (if truthy (req_POST r ''content'') then 1 else 0)
                \<and> (\<forall>k < length (messages d).
                      ?ms ! k =
                        (if in_thread jid u uid (messages d ! k) \<and> receiver (messages d ! k) = u
                             \<and> \<not> msg_read (messages d ! k)
                         then (messages d ! k)\<lparr>msg_read := True\<rparr> else messages d ! k))
                \<and> (truthy (req_POST r ''content'') \<longrightarrow> ?ms ! length (messages d) = ?new)"
    by (simp add: nth_append mark_read_row)
  have post_all: "authorized d u jb \<and> req_method r = POST \<longrightarrow>
       (\<exists>d' :: db. snd (conversation d r jid uid) = d\<lparr>messages := messages d', message_seq := message_seq d'\<rparr>
                \<and> length (messages d') = length (messages d)
                      + (if truthy (req_POST r ''content'') then 1 else 0)
                \<and> (\<forall>k < length (messages d).
                      messages d' ! k =
                        (if in_thread jid u uid (messages d ! k) \<and> receiver (messages d ! k) = u
                             \<and> \<not> msg_read (messages d ! k)
                         then (messages d ! k)\<lparr>msg_read := True\<rparr> else messages d ! k))
                \<and> (truthy (req_POST r ''content'') \<longrightarrow>
                      messages d' ! length (messages d) = ?new))"
  proof
    assume a: "authorized d u jb \<and> req_method r = POST"
    define dd where "dd = d\<lparr>messages := ?ms,
               message_seq := (if truthy (req_POST r ''content'') then Suc (message_seq d)
                               else message_seq d)\<rparr>"
    have s: "snd (conversation d r jid uid) = dd"
      using post a unfolding dd_def by blast
    have m: "messages dd = ?ms" by (simp add: dd_def)
    have e: "dd = d\<lparr>messages := messages dd, message_seq := message_seq dd\<rparr>"
      by (simp add: dd_def)
    have g: "snd (conversation d r jid uid)
               = d\<lparr>messages := messages dd, message_seq := message_seq dd\<rparr>"
      by (rule trans [OF s e])
    have f: "length (messages dd) = length (messages d)
                      + (if truthy (req_POST r ''content'') then 1 else 0)
                \<and> (\<forall>k < length (messages d).
                      messages dd ! k =
                        (if in_thread jid u uid (messages d ! k) \<and> receiver (messages d ! k) = u
                             \<and> \<not> msg_read (messages d ! k)
                         then (messages d ! k)\<lparr>msg_read := True\<rparr> else messages d ! k))
                \<and> (truthy (req_POST r ''content'') \<longrightarrow>
                      messages dd ! length (messages d) = ?new)"
      using post_facts unfolding m .
    from g f show "\<exists>d' :: db. snd (conversation d r jid uid) = d\<lparr>messages := messages d', message_seq := message_seq d'\<rparr>
                \<and> length (messages d') = length (messages d)
                      + (if truthy (req_POST r ''content'') then 1 else 0)
                \<and> (\<forall>k < length (messages d).
                      messages d' ! k =
                        (if in_thread jid u uid (messages d ! k) \<and> receiver (messages d ! k) = u
                             \<and> \<not> msg_read (messages d ! k)
                         then (messages d ! k)\<lparr>msg_read := True\<rparr> else messages d ! k))
                \<and> (truthy (req_POST r ''content'') \<longrightarrow>
                      messages d' ! length (messages d) = ?new)"
      by blast
  qed
  show ?thesis
    using forb forb_clear denied view view_facts clear cleared post post_all by blast
qed

theorem messaging_authorizes_requester_only_witness:
  "authorized demo_db 2 demo_job \<and> \<not> authorized demo_db 3 demo_job
   \<and> (\<exists>msgs. fst (conversation demo_db (user_get 2 11) 1 3) =
         Render ''jobs/conversation.html'' (ConversationCtx demo_job (demo_user 3 ''f2'') msgs))
   \<and> fst (clear_chat demo_db (user_post 2 [] 11) 1 3) = Redirect ''conversation'' [1, 3]
   \<and> (\<exists>msg. fst (conversation demo_db (user_get 3 11) 1 2) = HttpResponseForbidden msg)
   \<and> (\<exists>msg. fst (clear_chat demo_db (user_post 3 [] 11) 1 2) = HttpResponseForbidden msg)
   \<and> conversation demo_db (user_get 3 11) 1 2 =
         (HttpResponseForbidden ''Not authorized to view this conversation'', demo_db)
   \<and> clear_chat demo_db (user_post 3 [] 11) 1 2 =
         (HttpResponseForbidden ''Not authorized to clear this chat'', demo_db)
   \<and> clear_chat demo_db_before_note (user_post 1 [] 10) 1 2 =
         (Redirect ''conversation'' [1, 2], demo_db_before_note\<lparr>messages := []\<rparr>)"
proof -
  have a2: "authorized demo_db 2 demo_job"
    by (simp add: authorized_def demo_db_def demo_job_def demo_app1_def)
  have a3: "\<not> authorized demo_db 3 demo_job"
    by (simp add: authorized_def demo_db_def demo_job_def demo_app1_def demo_app2_def)
  have g: "req_method (user_get u t) \<noteq> POST" for u t by simp
  note view2 = messaging_authorizes_requester_only [OF demo_fields(7) demo_get_job demo_get_user(3),
      of 2 11]
  note post2 = messaging_authorizes_requester_only [OF demo_fields(5) demo_get_job demo_get_user(3),
      of 2 "[]" 11]
  note view3 = messaging_authorizes_requester_only [OF demo_fields(7) demo_get_job demo_get_user(2),
      of 3 11]
  note post3 = messaging_authorizes_requester_only [OF demo_fields(5) demo_get_job demo_get_user(2),
      of 3 "[]" 11]
  note post1 = messaging_authorizes_requester_only [OF demo_fields(5) demo_before_note_lookups(1,2),
      of 1 "[]" 10]
  have c1: "\<exists>msgs. fst (conversation demo_db (user_get 2 11) 1 3) =
         Render ''jobs/conversation.html'' (ConversationCtx demo_job (demo_user 3 ''f2'') msgs)"
  proof -
    from view2 a2 g obtain msgs d' where "conversation demo_db (user_get 2 11) 1 3 =
         (Render ''jobs/conversation.html'' (ConversationCtx demo_job (demo_user 3 ''f2'') msgs), d')"
      by blast
    then show ?thesis by simp
  qed
  have c2: "fst (clear_chat demo_db (user_post 2 [] 11) 1 3) = Redirect ''conversation'' [1, 3]"
  proof -
    from post2 a2 demo_fields(6) have "clear_chat demo_db (user_post 2 [] 11) 1 3 =
         (Redirect ''conversation'' [1, 3],
           demo_db\<lparr>messages :=
                   filter (\<lambda>m. \<not> (msg_job m = 1 \<and> sender m \<in> {2, 3} \<and> receiver m \<in> {2, 3}))
                     (messages demo_db)\<rparr>)"
      by blast
    then show ?thesis by (simp only: fst_conv)
  qed
  have c3: "conversation demo_db (user_get 3 11) 1 2 =
         (HttpResponseForbidden ''Not authorized to view this conversation'', demo_db)"
    using view3 a3 by blast
  have c4: "clear_chat demo_db (user_post 3 [] 11) 1 2 =
         (HttpResponseForbidden ''Not authorized to clear this chat'', demo_db)"
    using post3 a3 demo_fields(6) by blast
  have f: "filter (\<lambda>m. \<not> (msg_job m = 1 \<and> sender m \<in> {1, 2} \<and> receiver m \<in> {1, 2}))
             (messages demo_db_before_note) = []"
    by (simp add: demo_db_before_note_def demo_msg1_def demo_msg2_def)
  have c5: "clear_chat demo_db_before_note (user_post 1 [] 10) 1 2 =
         (Redirect ''conversation'' [1, 2], demo_db_before_note\<lparr>messages := []\<rparr>)"
  proof -
    from post1 demo_before_note_lookups(3) demo_fields(6)
    have "clear_chat demo_db_before_note (user_post 1 [] 10) 1 2 =
         (Redirect ''conversation'' [1, 2],
           demo_db_before_note\<lparr>messages :=
                   filter (\<lambda>m. \<not> (msg_job m = 1 \<and> sender m \<in> {1, 2} \<and> receiver m \<in> {1, 2}))
                     (messages demo_db_before_note)\<rparr>)"
      by blast
    then show ?thesis by (simp only: f)
  qed
  have c3': "\<exists>msg. fst (conversation demo_db (user_get 3 11) 1 2) = HttpResponseForbidden msg"
    by (simp only: c3 fst_conv) blast
  have c4': "\<exists>msg. fst (clear_chat demo_db (user_post 3 [] 11) 1 2) = HttpResponseForbidden msg"
    by (simp only: c4 fst_conv) blast
  from a2 a3 c1 c2 c3' c4' c3 c4 c5 show ?thesis by blast
qed

end
